theory Spec2Isabelle
  imports Main "HOL-Library.Sublist"
begin

section \<open>Spark columns and three-valued logic\<close>

text \<open>
  The notebook \<^verbatim>\<open>notebooks/journals.ipynb\<close> works on Spark data frames. A data frame
  is modelled as the list of its rows and a nullable string column as \<open>string option\<close>,
  with \<open>None\<close> for SQL NULL. A comparison of columns yields TRUE, FALSE or NULL
  (\<open>Some True\<close>, \<open>Some False\<close>, \<open>None\<close>); \<^verbatim>\<open>&\<close> and \<^verbatim>\<open>|\<close> on columns are SQL's AND and
  OR. A filter keeps a row, and a join pairs two rows, only where the condition is TRUE.
  Spark fixes no row order for the result of a join, a grouping or \<^verbatim>\<open>dropDuplicates\<close>;
  the model lists the rows in the order of the left input.
\<close>

definition sql_eq :: "'a option \<Rightarrow> 'a option \<Rightarrow> bool option" where
  "sql_eq a b =
     (case a of None \<Rightarrow> None
      | Some x \<Rightarrow> (case b of None \<Rightarrow> None | Some y \<Rightarrow> Some (x = y)))"

definition sql_neq :: "'a option \<Rightarrow> 'a option \<Rightarrow> bool option" where
  "sql_neq a b =
     (case a of None \<Rightarrow> None
      | Some x \<Rightarrow> (case b of None \<Rightarrow> None | Some y \<Rightarrow> Some (x \<noteq> y)))"

definition sql_and :: "bool option \<Rightarrow> bool option \<Rightarrow> bool option" where
  "sql_and a b =
     (if a = Some False \<or> b = Some False then Some False
      else if a = Some True \<and> b = Some True then Some True
      else None)"

definition sql_or :: "bool option \<Rightarrow> bool option \<Rightarrow> bool option" where
  "sql_or a b =
     (if a = Some True \<or> b = Some True then Some True
      else if a = Some False \<and> b = Some False then Some False
      else None)"

definition isNull :: "'a option \<Rightarrow> bool option" where
  "isNull a = Some (a = None)"

definition df_filter :: "('a \<Rightarrow> bool option) \<Rightarrow> 'a list \<Rightarrow> 'a list" where
  "df_filter c rows = filter (\<lambda>r. c r = Some True) rows"

definition inner_join :: "('a \<Rightarrow> 'b \<Rightarrow> bool option) \<Rightarrow> 'a list \<Rightarrow> 'b list \<Rightarrow> ('a \<times> 'b) list" where
  "inner_join on xs ys =
     concat (map (\<lambda>x. map (Pair x) (filter (\<lambda>y. on x y = Some True) ys)) xs)"

text \<open>
  A left-outer join keeps a left row without a partner once, beside the right-hand
  row \<open>nulls\<close> whose columns are all NULL.
\<close>

definition left_outer_join ::
  "('a \<Rightarrow> 'b \<Rightarrow> bool option) \<Rightarrow> 'b \<Rightarrow> 'a list \<Rightarrow> 'b list \<Rightarrow> ('a \<times> 'b) list" where
  "left_outer_join on nulls xs ys =
     concat (map (\<lambda>x. let ms = filter (\<lambda>y. on x y = Some True) ys
                       in if ms = [] then [(x, nulls)] else map (Pair x) ms) xs)"

definition sort_desc :: "('a \<Rightarrow> nat) \<Rightarrow> 'a list \<Rightarrow> 'a list" where
  "sort_desc f xs = rev (sort_key f xs)"

section \<open>Title normalisation\<close>

text \<open>
  A string is the list of its UTF-8 bytes. Spark's \<^verbatim>\<open>lower\<close> follows the Unicode
  case tables, which are not part of the notebook: every definition that lower-cases
  takes the lower-casing function as its argument \<open>L\<close>, and what is proved holds
  for whatever function Spark applies. On a string of ASCII bytes Spark lower-cases
  byte by byte: the letters \<open>A\<close> to \<open>Z\<close> (bytes 65 to 90) get bit 5 set (32 is added)
  and every other byte stays as it is. That function is \<open>ascii_lower\<close>.
\<close>

definition ascii_lower_char :: "char \<Rightarrow> char" where
  "ascii_lower_char c =
     (let n = (of_char c :: nat) in
      if 65 \<le> n \<and> n \<le> 90
      then (case c of Char b0 b1 b2 b3 b4 b5 b6 b7 \<Rightarrow> Char b0 b1 b2 b3 b4 True b6 b7)
      else c)"

definition ascii_lower :: "string \<Rightarrow> string" where
  "ascii_lower s = map ascii_lower_char s"

definition ascii :: "string \<Rightarrow> bool" where
  "ascii s = list_all (\<lambda>c. (of_char c :: nat) < 128) s"

text \<open>
  \<^verbatim>\<open>regexp_replace(col, pat, rep)\<close> for a pattern without regular-expression
  metacharacters: the matcher scans from the left, replaces each occurrence of the
  pattern it finds and resumes the scan after the end of that occurrence, so that
  occurrences never overlap. The pattern of the notebook is ASCII, so that its
  occurrences among the bytes are its occurrences among the characters.
\<close>

fun regexp_replace :: "string \<Rightarrow> string \<Rightarrow> string \<Rightarrow> string" where
  "regexp_replace [] pat rep = []"
| "regexp_replace (c # cs) pat rep =
     (if pat \<noteq> [] \<and> prefix pat (c # cs)
      then rep @ regexp_replace (drop (length pat - 1) cs) pat rep
      else c # regexp_replace cs pat rep)"

text \<open>
  Cell 26 normalises the subscription titles:
  \<^verbatim>\<open>.withColumn('Title', lower(col('Title')))
   .withColumn('Title', regexp_replace('Title', ' & ', ' and '))\<close>
\<close>

definition amp_to_and :: "string \<Rightarrow> string" where
  "amp_to_and s = regexp_replace s '' & '' '' and ''"

definition normalize_title :: "(string \<Rightarrow> string) \<Rightarrow> string \<Rightarrow> string" where
  "normalize_title L t = amp_to_and (L t)"

text \<open>
  What is used of Spark's \<^verbatim>\<open>lower\<close>. It agrees with \<open>ascii_lower\<close> on ASCII
  strings. It is idempotent, and a string it leaves unchanged is still left
  unchanged after the replacement, whose text \<open>and\<close> is lower-case.
\<close>

definition ascii_faithful :: "(string \<Rightarrow> string) \<Rightarrow> bool" where
  "ascii_faithful L = (\<forall>s. ascii s \<longrightarrow> L s = ascii_lower s)"

definition lower_stable :: "(string \<Rightarrow> string) \<Rightarrow> bool" where
  "lower_stable L =
     ((\<forall>s. L (L s) = L s) \<and> (\<forall>s. L s = s \<longrightarrow> L (amp_to_and s) = amp_to_and s))"

text \<open>A column that is NULL or holds an ASCII string.\<close>

definition ascii_col :: "string option \<Rightarrow> bool" where
  "ascii_col x = (case x of None \<Rightarrow> True | Some s \<Rightarrow> ascii s)"

text \<open>Two ASCII characters that differ at most in letter case.\<close>

definition same_ascii_letter :: "char \<Rightarrow> char \<Rightarrow> bool" where
  "same_ascii_letter a b = (a = b \<or> ascii_lower_char a = b \<or> ascii_lower_char b = a)"

definition starts_amp :: "string \<Rightarrow> bool" where
  "starts_amp s = prefix '' & '' s"

section \<open>The zip helper (cell 14)\<close>

text \<open>
  \<^verbatim>\<open>def my_zip(x, y):
    if isinstance(x, list) and isinstance(y, list):
        return zip(x, y)
    else:
        return [x, y]\<close>
  The values the helper receives are Python values: \<^verbatim>\<open>None\<close>, a string, or a list.
  The result of \<^verbatim>\<open>zip\<close> is given as the list of the tuples it yields (the UDF
  \<^verbatim>\<open>zip_\<close> applies \<^verbatim>\<open>list\<close> to it). No branch of the helper raises.
\<close>

datatype pyval = PyNone | PyStr string | PyList "pyval list" | PyTuple "pyval list"

fun isinstance_list :: "pyval \<Rightarrow> bool" where
  "isinstance_list (PyList xs) = True"
| "isinstance_list v = False"

fun elements :: "pyval \<Rightarrow> pyval list" where
  "elements (PyList xs) = xs"
| "elements v = []"

definition py_zip :: "pyval \<Rightarrow> pyval \<Rightarrow> pyval" where
  "py_zip x y = PyList (map (\<lambda>(a, b). PyTuple [a, b]) (zip (elements x) (elements y)))"

definition my_zip :: "pyval \<Rightarrow> pyval \<Rightarrow> pyval" where
  "my_zip x y =
     (if isinstance_list x \<and> isinstance_list y then py_zip x y else PyList [x, y])"

text \<open>The UDF \<^verbatim>\<open>zip_\<close>, here \<open>zip_udf\<close>, is \<^verbatim>\<open>lambda x, y: list(my_zip(x, y))\<close>.\<close>

definition zip_udf :: "pyval \<Rightarrow> pyval \<Rightarrow> pyval list" where
  "zip_udf x y = elements (my_zip x y)"

section \<open>The reference extractor (cell 16)\<close>

text \<open>
  After \<^verbatim>\<open>explode\<close> every row is one reference: the pair of its source title
  (\<^verbatim>\<open>tmp.first\<close>, renamed \<^verbatim>\<open>ref_journal\<close>) and its work title (\<^verbatim>\<open>tmp.second\<close>,
  renamed \<^verbatim>\<open>ref_title\<close>). The cell casts both columns to strings, which changes
  neither a string nor NULL, adds the lower-cased columns, filters, keeps the two
  journal columns and filters again:
  \<^verbatim>\<open>.withColumn('ref_journal_lc', lower(col('ref_journal')))
   .withColumn('ref_title_lc', lower(col('ref_title')))
   .filter("ref_journal_lc!='null'" and "ref_title_lc!='null'" and 'ref_journal_lc!=ref_title_lc')
   .select('ref_journal', 'ref_journal_lc').filter("ref_journal_lc!='null'")\<close>
\<close>

record sel_row =
  ref_journal :: "string option"
  ref_journal_lc :: "string option"

record ref_row = sel_row +
  ref_title :: "string option"
  ref_title_lc :: "string option"

definition with_lc :: "(string \<Rightarrow> string) \<Rightarrow> string option \<times> string option \<Rightarrow> ref_row" where
  "with_lc L p =
     \<lparr>ref_journal = fst p, ref_journal_lc = map_option L (fst p),
      ref_title = snd p, ref_title_lc = map_option L (snd p)\<rparr>"

text \<open>
  The three condition strings of the first filter. Python's \<^verbatim>\<open>a and b\<close> yields \<open>b\<close>
  when \<open>a\<close> is truthy and \<open>a\<close> otherwise; a string is truthy when it is not empty.
\<close>

datatype cond = JournalNotNull | TitleNotNull | JournalNeqTitle

definition sq :: char where
  "sq = CHR 0x27"

fun cond_text :: "cond \<Rightarrow> string" where
  "cond_text JournalNotNull = ''ref_journal_lc!='' @ [sq] @ ''null'' @ [sq]"
| "cond_text TitleNotNull = ''ref_title_lc!='' @ [sq] @ ''null'' @ [sq]"
| "cond_text JournalNeqTitle = ''ref_journal_lc!=ref_title_lc''"

definition py_and :: "cond \<Rightarrow> cond \<Rightarrow> cond" where
  "py_and a b = (if cond_text a \<noteq> [] then b else a)"

definition journal_not_null :: "'a sel_row_scheme \<Rightarrow> bool option" where
  "journal_not_null r = sql_neq (ref_journal_lc r) (Some ''null'')"

fun cond_sem :: "cond \<Rightarrow> ref_row \<Rightarrow> bool option" where
  "cond_sem JournalNotNull r = journal_not_null r"
| "cond_sem TitleNotNull r = sql_neq (ref_title_lc r) (Some ''null'')"
| "cond_sem JournalNeqTitle r = sql_neq (ref_journal_lc r) (ref_title_lc r)"

definition select_journal :: "ref_row \<Rightarrow> sel_row" where
  "select_journal r = \<lparr>ref_journal = ref_journal r, ref_journal_lc = ref_journal_lc r\<rparr>"

definition extract_filter :: cond where
  "extract_filter = py_and (py_and JournalNotNull TitleNotNull) JournalNeqTitle"

definition extract_ref_journals ::
  "(string \<Rightarrow> string) \<Rightarrow> (string option \<times> string option) list \<Rightarrow> sel_row list" where
  "extract_ref_journals L ps =
     df_filter journal_not_null
       (map select_journal (df_filter (cond_sem extract_filter) (map (with_lc L) ps)))"

text \<open>A row whose source title is a string that lower-cases to \<^verbatim>\<open>null\<close>.\<close>

definition null_titled :: "(string \<Rightarrow> string) \<Rightarrow> 'a sel_row_scheme \<Rightarrow> bool" where
  "null_titled L r = (map_option L (ref_journal r) = Some ''null'')"

section \<open>The citation tally (cell 20)\<close>

text \<open>
  \<^verbatim>\<open>ref_journal_df.groupBy(['ref_journal', 'ref_journal_lc']).count()\<close>: one row for
  every distinct pair of the two grouping columns, with the number of rows that carry it.
\<close>

record tally_row = sel_row +
  count :: nat

definition group_count :: "sel_row list \<Rightarrow> tally_row list" where
  "group_count rows =
     map (\<lambda>k. \<lparr>ref_journal = ref_journal k, ref_journal_lc = ref_journal_lc k,
               count = length (filter (\<lambda>r. r = k) rows)\<rparr>)
         (remdups rows)"

text \<open>
  The publication variant (cells 34 and 38) takes the venue of every document,
  \<^verbatim>\<open>journal_df.withColumn('journal_lc', lower(col('journal')))\<close> and
  \<^verbatim>\<open>journal_df.groupBy(['journal', 'journal_lc']).count().sort('count', ascending=0)\<close>,
  without any filter. A document is given as the pair of \<^verbatim>\<open>journal_id\<close> and
  \<^verbatim>\<open>journal\<close>; the columns \<^verbatim>\<open>journal\<close> and \<^verbatim>\<open>journal_lc\<close> take the place of
  \<^verbatim>\<open>ref_journal\<close> and \<^verbatim>\<open>ref_journal_lc\<close> in the row types.
\<close>

definition with_journal_lc :: "(string \<Rightarrow> string) \<Rightarrow> string option \<times> string option \<Rightarrow> sel_row" where
  "with_journal_lc L d = \<lparr>ref_journal = snd d, ref_journal_lc = map_option L (snd d)\<rparr>"

definition count_pub_journals ::
  "(string \<Rightarrow> string) \<Rightarrow> (string option \<times> string option) list \<Rightarrow> tally_row list" where
  "count_pub_journals L docs = sort_desc count (group_count (map (with_journal_lc L) docs))"

section \<open>The serial join (cells 8 and 22)\<close>

text \<open>
  Cell 8 reads the serials and adds \<^verbatim>\<open>serial_lc = lower(col('serial'))\<close>; cell 22 is
  \<^verbatim>\<open>ref_journal_df.join(serial_df, ref_journal_df.ref_journal_lc == serial_df.serial_lc, 'inner')\<close>.
  The projections of cells 24 and 42, which only drop the columns \<^verbatim>\<open>serial\<close> and
  \<^verbatim>\<open>serial_lc\<close> (cell 24 also renames \<^verbatim>\<open>count\<close> to \<^verbatim>\<open>cite_count\<close>), are left
  out: a stage-1 row is the pair of a tally row and its serial. As cell 24 is
  written it reads the frame from the misspelt name \<^verbatim>\<open>ref_jourfffnal_df\<close>.
\<close>

record serial_src =
  serial_id :: "string option"
  serial :: "string option"
  serial_issn :: "string option"
  serial_eissn :: "string option"
  open_access :: "string option"

record serial_row = serial_src +
  serial_lc :: "string option"

definition with_serial_lc :: "(string \<Rightarrow> string) \<Rightarrow> serial_src \<Rightarrow> serial_row" where
  "with_serial_lc L s =
     \<lparr>serial_id = serial_id s, serial = serial s, serial_issn = serial_issn s,
      serial_eissn = serial_eissn s, open_access = open_access s,
      serial_lc = map_option L (serial s)\<rparr>"

type_synonym stage1_row = "tally_row \<times> serial_row"

definition serial_match :: "tally_row \<Rightarrow> serial_row \<Rightarrow> bool option" where
  "serial_match t s = sql_eq (ref_journal_lc t) (serial_lc s)"

definition join_serials :: "tally_row list \<Rightarrow> serial_row list \<Rightarrow> stage1_row list" where
  "join_serials tally serial_df = inner_join serial_match tally serial_df"

section \<open>The subscription join (cells 26 and 28)\<close>

record sub_row =
  Title :: "string option"
  ISSN :: "string option"
  eISSN :: "string option"

definition normalize_sub :: "(string \<Rightarrow> string) \<Rightarrow> sub_row \<Rightarrow> sub_row" where
  "normalize_sub L u = u\<lparr>Title := map_option (normalize_title L) (Title u)\<rparr>"

text \<open>Cell 26 ends with \<^verbatim>\<open>ss_df = ss_df.dropDuplicates()\<close>.\<close>

definition load_ss_df :: "(string \<Rightarrow> string) \<Rightarrow> sub_row list \<Rightarrow> sub_row list" where
  "load_ss_df L csv = remdups (map (normalize_sub L) csv)"

text \<open>
  The join condition of cell 28 (cell 44 has the same one on \<^verbatim>\<open>journal_lc\<close>):
  \<^verbatim>\<open>( ref_journal_df.ref_journal_lc == ss_df.Title ) |
  ( ( ref_journal_df.serial_issn != 'null' ) &
    ( ( ref_journal_df.serial_issn == ss_df.ISSN ) |
      ( ref_journal_df.serial_issn == ss_df.eISSN ) ) ) |
  ( ( ref_journal_df.serial_eissn != 'null' ) &
    ( ( ref_journal_df.serial_eissn == ss_df.eISSN ) |
      ( ref_journal_df.serial_eissn == ss_df.ISSN ) ) )\<close>
\<close>

definition sub_match :: "stage1_row \<Rightarrow> sub_row \<Rightarrow> bool option" where
  "sub_match r u =
     sql_or
       (sql_or
          (sql_eq (ref_journal_lc (fst r)) (Title u))
          (sql_and (sql_neq (serial_issn (snd r)) (Some ''null''))
             (sql_or (sql_eq (serial_issn (snd r)) (ISSN u))
                     (sql_eq (serial_issn (snd r)) (eISSN u)))))
       (sql_and (sql_neq (serial_eissn (snd r)) (Some ''null''))
          (sql_or (sql_eq (serial_eissn (snd r)) (eISSN u))
                  (sql_eq (serial_eissn (snd r)) (ISSN u))))"

text \<open>
  The guard \<^verbatim>\<open>serial_issn != 'null'\<close> of that condition is the notebook's test for an
  identifier that is present: it is TRUE for a string other than the four
  characters \<^verbatim>\<open>null\<close>, FALSE for that string and NULL for SQL NULL.
\<close>

definition present :: "string option \<Rightarrow> bool" where
  "present x = (sql_neq x (Some ''null'') = Some True)"

definition null_sub :: sub_row where
  "null_sub = \<lparr>Title = None, ISSN = None, eISSN = None\<rparr>"

type_synonym stage2_row = "stage1_row \<times> sub_row"

definition join_subscriptions :: "stage1_row list \<Rightarrow> sub_row list \<Rightarrow> stage2_row list" where
  "join_subscriptions rows ss_df = left_outer_join sub_match null_sub rows ss_df"

section \<open>The reports (cells 28 to 31 and 44 to 48)\<close>

text \<open>
  A variable of the notebook holds a frame with the columns of stage 1 (tally and
  serial) or one with the columns of stage 2 (stage 1 and the subscription columns
  \<^verbatim>\<open>Title\<close>, \<^verbatim>\<open>ISSN\<close>, \<^verbatim>\<open>eISSN\<close>). The publication variant of cells 34 to 48 has
  the columns \<^verbatim>\<open>journal\<close> and \<^verbatim>\<open>journal_lc\<close> where the reference variant has
  \<^verbatim>\<open>ref_journal\<close> and \<^verbatim>\<open>ref_journal_lc\<close>; its rows are given the same types.
\<close>

datatype frame = Stage1 "stage1_row list" | Stage2 "stage2_row list"

datatype error = AttributeError | AnalysisException

text \<open>
  \<^verbatim>\<open>df.filter(df.Title.isNull())\<close>: the attribute \<^verbatim>\<open>df.Title\<close> of a frame without
  a column of that name raises \<^verbatim>\<open>AttributeError\<close>.
\<close>

fun filter_Title_isNull :: "frame \<Rightarrow> error + frame" where
  "filter_Title_isNull (Stage1 rows) = Inl AttributeError"
| "filter_Title_isNull (Stage2 rows) = Inr (Stage2 (df_filter (\<lambda>r. isNull (Title (snd r))) rows))"

text \<open>
  \<^verbatim>\<open>.select('serial_id', 'ref_journal', 'serial_issn', 'serial_eissn', 'open_access', 'cite_count')
   .sort('cite_count', ascending=False)\<close>
\<close>

type_synonym report_row =
  "string option \<times> string option \<times> string option \<times> string option \<times> string option \<times> nat"

definition report_columns :: "stage1_row \<Rightarrow> report_row" where
  "report_columns r =
     (serial_id (snd r), ref_journal (fst r), serial_issn (snd r), serial_eissn (snd r),
      open_access (snd r), count (fst r))"

definition report_count :: "report_row \<Rightarrow> nat" where
  "report_count r = snd (snd (snd (snd (snd r))))"

definition report_title :: "report_row \<Rightarrow> string option" where
  "report_title r = fst (snd r)"

fun select_sort :: "frame \<Rightarrow> report_row list" where
  "select_sort (Stage1 rows) = sort_desc report_count (map report_columns rows)"
| "select_sort (Stage2 rows) = sort_desc report_count (map (\<lambda>r. report_columns (fst r)) rows)"

text \<open>
  Cell 28 binds the result of the subscription join to \<^verbatim>\<open>ref_journals\<close>; cell 31
  filters \<^verbatim>\<open>ref_journal_df\<close>:
  \<^verbatim>\<open>ref_journals = ref_journal_df.join(ss_df, ..., "left_outer")
  cited_not_subscribed = ref_journal_df.filter(ref_journal_df.Title.isNull())\<close>
\<close>

definition cited_not_subscribed :: "stage1_row list \<Rightarrow> sub_row list \<Rightarrow> error + report_row list" where
  "cited_not_subscribed rows ss_df =
     (let ref_journal_df = Stage1 rows;
          ref_journals = Stage2 (join_subscriptions rows ss_df)
      in case filter_Title_isNull ref_journal_df of
           Inl e \<Rightarrow> Inl e
         | Inr cited \<Rightarrow> Inr (select_sort cited))"

text \<open>
  Cell 44 binds the result of the join to \<^verbatim>\<open>journal_df\<close> again; cell 48 filters it:
  \<^verbatim>\<open>journal_df = journal_df.join(ss_df, ..., "left_outer")
  published_not_subscribed = journal_df.filter(journal_df.Title.isNull())\<close>
\<close>

definition published_not_subscribed :: "stage1_row list \<Rightarrow> sub_row list \<Rightarrow> error + report_row list" where
  "published_not_subscribed rows ss_df =
     (let journal_df = Stage1 rows;
          journal_df = Stage2 (join_subscriptions rows ss_df)
      in case filter_Title_isNull journal_df of
           Inl e \<Rightarrow> Inl e
         | Inr published \<Rightarrow> Inr (select_sort published))"

section \<open>The saved files (cells 29 and 46)\<close>

text \<open>
  \<^verbatim>\<open>df.write\<close> makes a writer whose save mode is Spark's default, which raises
  when the path exists already; the notebook never calls \<^verbatim>\<open>.mode(...)\<close>. The file
  system maps a path to the frames written to it. A write returns the error it
  raised, if any, and the file system it leaves behind.
\<close>

datatype save_mode = Append | Overwrite | ErrorIfExists | Ignore

record writer =
  w_df :: frame
  w_format :: string
  w_mode :: save_mode

type_synonym files = "string \<rightharpoonup> frame list"

definition df_write :: "frame \<Rightarrow> writer" where
  "df_write df = \<lparr>w_df = df, w_format = ''parquet'', w_mode = ErrorIfExists\<rparr>"

definition df_format :: "string \<Rightarrow> writer \<Rightarrow> writer" where
  "df_format f w = w\<lparr>w_format := f\<rparr>"

definition df_save :: "string \<Rightarrow> writer \<Rightarrow> files \<Rightarrow> error option \<times> files" where
  "df_save path w fs =
     (case w_mode w of
        ErrorIfExists \<Rightarrow>
          (if fs path \<noteq> None then (Some AnalysisException, fs)
           else (None, fs(path \<mapsto> [w_df w])))
      | Overwrite \<Rightarrow> (None, fs(path \<mapsto> [w_df w]))
      | Append \<Rightarrow>
          (None, fs(path \<mapsto> (case fs path of None \<Rightarrow> [] | Some old \<Rightarrow> old) @ [w_df w]))
      | Ignore \<Rightarrow> (None, if fs path \<noteq> None then fs else fs(path \<mapsto> [w_df w])))"

text \<open>
  \<^verbatim>\<open>ref_journal_df.write.format('parquet').save('../data/ref_journals.parquet')\<close> and
  \<^verbatim>\<open>journal_df.write.format('parquet').save('../data/pub_journals.parquet')\<close>
\<close>

definition save_ref_journals :: "frame \<Rightarrow> files \<Rightarrow> error option \<times> files" where
  "save_ref_journals ref_journal_df fs =
     df_save ''../data/ref_journals.parquet'' (df_format ''parquet'' (df_write ref_journal_df)) fs"

definition save_pub_journals :: "frame \<Rightarrow> files \<Rightarrow> error option \<times> files" where
  "save_pub_journals journal_df fs =
     df_save ''../data/pub_journals.parquet'' (df_format ''parquet'' (df_write journal_df)) fs"

text \<open>
  One run of the notebook executes both cells and stops at the first error; what
  was written before the error stays on disk.
\<close>

definition persist :: "frame \<Rightarrow> frame \<Rightarrow> files \<Rightarrow> error option \<times> files" where
  "persist ref_journal_df journal_df fs =
     (case save_ref_journals ref_journal_df fs of
        (Some e, fs') \<Rightarrow> (Some e, fs')
      | (None, fs') \<Rightarrow> save_pub_journals journal_df fs')"

definition run_twice :: "frame \<Rightarrow> frame \<Rightarrow> files \<Rightarrow> error option \<times> files" where
  "run_twice ref_journal_df journal_df fs =
     (case persist ref_journal_df journal_df fs of
        (Some e, fs') \<Rightarrow> (Some e, fs')
      | (None, fs') \<Rightarrow> persist ref_journal_df journal_df fs')"

section \<open>Properties of the normalisation\<close>

lemma ascii_lower_char_idem: "ascii_lower_char (ascii_lower_char c) = ascii_lower_char c"
  by (cases c) (simp add: ascii_lower_char_def Let_def)

lemma ascii_lower_idem: "ascii_lower (ascii_lower s) = ascii_lower s"
  by (simp add: ascii_lower_def ascii_lower_char_idem)

lemma same_ascii_letter_lower: "same_ascii_letter a b \<Longrightarrow> ascii_lower_char a = ascii_lower_char b"
  by (auto simp: same_ascii_letter_def ascii_lower_char_idem)

lemma same_ascii_letters_lower: "list_all2 same_ascii_letter x y \<Longrightarrow> ascii_lower x = ascii_lower y"
  unfolding ascii_lower_def
  by (induction x y rule: list_all2_induct) (simp_all add: same_ascii_letter_lower)

lemma ascii_lower_char_space: "ascii_lower_char c = CHR '' '' \<longleftrightarrow> c = CHR '' ''"
  by (cases c; auto simp: ascii_lower_char_def Let_def)

lemma ascii_lower_char_amp: "ascii_lower_char c = CHR ''&'' \<longleftrightarrow> c = CHR ''&''"
  by (cases c; auto simp: ascii_lower_char_def Let_def)

lemma starts_amp_iff: "starts_amp s \<longleftrightarrow> (\<exists>r. s = CHR '' '' # CHR ''&'' # CHR '' '' # r)"
  by (auto simp: prefix_def starts_amp_def)

lemma amp_to_and_Nil [simp]: "amp_to_and [] = []"
  by (simp add: amp_to_and_def)

lemma amp_to_and_match [simp]:
  "amp_to_and (CHR '' '' # CHR ''&'' # CHR '' '' # r) = '' and '' @ amp_to_and r"
  by (simp add: amp_to_and_def)

lemma amp_to_and_skip:
  "\<not> starts_amp (c # cs) \<Longrightarrow> amp_to_and (c # cs) = c # amp_to_and cs"
  by (auto simp: amp_to_and_def starts_amp_def)

text \<open>Induction along the scan of the matcher: a match consumes three characters.\<close>

lemma amp_induct [case_names Nil Match Skip]:
  assumes "P []"
    and "\<And>r. P r \<Longrightarrow> P (CHR '' '' # CHR ''&'' # CHR '' '' # r)"
    and "\<And>c cs. \<not> starts_amp (c # cs) \<Longrightarrow> P cs \<Longrightarrow> P (c # cs)"
  shows "P s"
proof (induction s rule: length_induct)
  case (1 xs)
  show ?case
  proof (cases xs)
    case Nil
    then show ?thesis using assms(1) by simp
  next
    case (Cons c cs)
    show ?thesis
    proof (cases "starts_amp xs")
      case True
      then obtain r where r: "xs = CHR '' '' # CHR ''&'' # CHR '' '' # r"
        by (auto simp: starts_amp_iff)
      then have "P r" using 1 by simp
      then show ?thesis using assms(2) r by simp
    next
      case False
      have "P cs" using 1 Cons by simp
      then show ?thesis using assms(3) False Cons by simp
    qed
  qed
qed

lemma prefix_lower_fixed:
  "\<forall>x\<in>set p. \<forall>c. (ascii_lower_char c = x) = (c = x) \<Longrightarrow> prefix p (ascii_lower s) \<longleftrightarrow> prefix p s"
proof (induction p arbitrary: s)
  case Nil
  show ?case by simp
next
  case (Cons x p)
  show ?case
  proof (cases s)
    case Nil
    then show ?thesis by (simp add: ascii_lower_def)
  next
    case (Cons c cs)
    have "prefix p (ascii_lower cs) \<longleftrightarrow> prefix p cs" using Cons.IH Cons.prems by simp
    moreover have "(ascii_lower_char c = x) = (c = x)" using Cons.prems by simp
    ultimately show ?thesis using Cons by (auto simp: ascii_lower_def)
  qed
qed

lemma sublist_lower_fixed:
  assumes "\<forall>x\<in>set p. \<forall>c. (ascii_lower_char c = x) = (c = x)"
  shows "sublist p (ascii_lower s) \<longleftrightarrow> sublist p s"
proof (induction s)
  case Nil
  show ?case by (simp add: ascii_lower_def)
next
  case (Cons c cs)
  have "prefix p (ascii_lower (c # cs)) \<longleftrightarrow> prefix p (c # cs)"
    using assms by (rule prefix_lower_fixed)
  moreover have "ascii_lower (c # cs) = ascii_lower_char c # ascii_lower cs" by (simp add: ascii_lower_def)
  ultimately show ?case using Cons by (simp only: sublist_Cons_right)
qed

lemma starts_amp_lower: "starts_amp (ascii_lower s) \<longleftrightarrow> starts_amp s"
  unfolding starts_amp_def
  by (rule prefix_lower_fixed) (simp add: ascii_lower_char_space ascii_lower_char_amp)

lemma sublist_lower_amps: "sublist '' & & '' (ascii_lower s) \<longleftrightarrow> sublist '' & & '' s"
  by (rule sublist_lower_fixed) (simp add: ascii_lower_char_space ascii_lower_char_amp)

lemma ascii_lower_amp_to_and: "ascii_lower (amp_to_and s) = amp_to_and (ascii_lower s)"
proof (induction s rule: amp_induct)
  case Nil
  show ?case by (simp add: ascii_lower_def)
next
  case (Match r)
  then show ?case by (simp add: ascii_lower_def ascii_lower_char_def)
next
  case (Skip c cs)
  have "\<not> starts_amp (ascii_lower (c # cs))"
    using Skip(1) by (simp add: starts_amp_lower)
  then have "amp_to_and (ascii_lower (c # cs)) = ascii_lower_char c # amp_to_and (ascii_lower cs)"
    by (simp add: ascii_lower_def amp_to_and_skip)
  then show ?case using Skip by (simp add: amp_to_and_skip ascii_lower_def)
qed

lemma sublist_amp_Cons:
  "sublist '' & '' (c # cs) \<longleftrightarrow> starts_amp (c # cs) \<or> sublist '' & '' cs"
  unfolding starts_amp_def by (rule sublist_Cons_right)

lemma amp_to_and_absent: "\<not> sublist '' & '' s \<Longrightarrow> amp_to_and s = s"
  by (induction s) (simp_all add: sublist_amp_Cons amp_to_and_skip)

lemma amp_to_and_Nil_iff [simp]: "amp_to_and s = [] \<longleftrightarrow> s = []"
  by (induction s rule: amp_induct) (auto simp: amp_to_and_skip)

lemma amp_to_and_hd: "s \<noteq> [] \<Longrightarrow> hd (amp_to_and s) = hd s"
  by (induction s rule: amp_induct) (auto simp: amp_to_and_skip)

text \<open>
  An ampersand followed by a space at the head of the result was there in the input:
  the replacement text holds no ampersand.
\<close>

lemma amp_tail_back: "prefix ''& '' (amp_to_and s) \<Longrightarrow> prefix ''& '' s"
proof (induction s rule: amp_induct)
  case Nil
  then show ?case by simp
next
  case (Match r)
  then show ?case by simp
next
  case (Skip c cs)
  from Skip(3) have p: "prefix ''& '' (c # amp_to_and cs)"
    using Skip(1) by (simp add: amp_to_and_skip)
  then have c: "c = CHR ''&''" and ne: "amp_to_and cs \<noteq> []"
    and h: "hd (amp_to_and cs) = CHR '' ''"
    by (auto simp: prefix_def)
  from ne have "cs \<noteq> []" by simp
  with h have "hd cs = CHR '' ''" by (simp add: amp_to_and_hd)
  with \<open>cs \<noteq> []\<close> c show ?case by (cases cs) (auto simp: prefix_def)
qed

text \<open>
  The result of the replacement still holds the pattern only where two occurrences
  shared a space in the input.
\<close>

lemma amp_to_and_clean: "\<not> sublist '' & & '' s \<Longrightarrow> \<not> sublist '' & '' (amp_to_and s)"
proof (induction s rule: amp_induct)
  case Nil
  then show ?case by simp
next
  case (Match r)
  have nr: "\<not> sublist '' & & '' r"
    using Match(2) by (auto simp: sublist_Cons_right)
  have np: "\<not> prefix ''& '' r"
  proof
    assume "prefix ''& '' r"
    then have "prefix '' & & '' (CHR '' '' # CHR ''&'' # CHR '' '' # r)"
      by (auto simp: prefix_def)
    then show False using Match(2) by (auto simp: sublist_Cons_right)
  qed
  then have "\<not> prefix ''& '' (amp_to_and r)" using amp_tail_back by blast
  moreover have "\<not> sublist '' & '' (amp_to_and r)" using Match(1) nr by simp
  ultimately show ?case by (auto simp: sublist_Cons_right prefix_def)
next
  case (Skip c cs)
  have nr: "\<not> sublist '' & & '' cs"
    using Skip(3) by (auto simp: sublist_Cons_right)
  then have ih: "\<not> sublist '' & '' (amp_to_and cs)" using Skip(2) by simp
  have "\<not> starts_amp (c # amp_to_and cs)"
  proof
    assume a: "starts_amp (c # amp_to_and cs)"
    then have "c = CHR '' ''" and "prefix ''& '' (amp_to_and cs)"
      by (auto simp: starts_amp_def prefix_def)
    then have "prefix ''& '' cs" using amp_tail_back by blast
    with \<open>c = CHR '' ''\<close> have "starts_amp (c # cs)"
      by (auto simp: starts_amp_def prefix_def)
    then show False using Skip(1) by simp
  qed
  then show ?case using ih Skip(1) by (simp add: amp_to_and_skip sublist_amp_Cons)
qed


lemma ascii_faithful_ascii_lower: "ascii_faithful ascii_lower"
  by (simp add: ascii_faithful_def)

lemma lower_stable_ascii_lower: "lower_stable ascii_lower"
  unfolding lower_stable_def
proof (intro conjI allI impI)
  fix s show "ascii_lower (ascii_lower s) = ascii_lower s" by (rule ascii_lower_idem)
next
  fix s assume "ascii_lower s = s"
  then show "ascii_lower (amp_to_and s) = amp_to_and s"
    by (simp add: ascii_lower_amp_to_and)
qed

lemma normalize_title_twice:
  assumes "lower_stable L" and "\<not> sublist '' & & '' (L x)"
  shows "normalize_title L (normalize_title L x) = normalize_title L x"
proof -
  have fixed: "L (L x) = L x"
    using assms(1) by (simp add: lower_stable_def)
  then have kept: "L (amp_to_and (L x)) = amp_to_and (L x)"
    using assms(1) by (simp add: lower_stable_def)
  have clean: "\<not> sublist '' & '' (amp_to_and (L x))"
    using assms(2) by (rule amp_to_and_clean)
  have "normalize_title L (normalize_title L x) = amp_to_and (amp_to_and (L x))"
    by (simp add: normalize_title_def kept)
  also have "\<dots> = amp_to_and (L x)"
    using clean by (rule amp_to_and_absent)
  finally show ?thesis by (simp add: normalize_title_def)
qed

text \<open>
  C9, as amended. The normalisation does not depend on letter case: two titles with
  the same lower-cased form have the same normal form, in particular two ASCII titles
  that differ only in the case of their letters, and \<open>Nature\<close> and \<open>NATURE\<close> both
  give \<open>nature\<close>. Normalising twice gives the same as normalising once for every
  title whose lower-cased form does not hold the five characters \<open>space ampersand
  space ampersand space\<close>, in which two occurrences of the pattern share a space;
  for an ASCII title that is a condition on the title itself.
\<close>

theorem normalize_title_case_insensitive_idempotent:
  "(L x = L y \<longrightarrow> normalize_title L x = normalize_title L y)
   \<and> (ascii_faithful L \<and> ascii x \<and> ascii y \<and> list_all2 same_ascii_letter x y \<longrightarrow>
        normalize_title L x = normalize_title L y)
   \<and> (ascii_faithful L \<longrightarrow>
        normalize_title L ''Nature'' = ''nature'' \<and> normalize_title L ''NATURE'' = ''nature'')
   \<and> (lower_stable L \<and> \<not> sublist '' & & '' (L x) \<longrightarrow>
        normalize_title L (normalize_title L x) = normalize_title L x)
   \<and> (lower_stable L \<and> ascii_faithful L \<and> ascii x \<and> \<not> sublist '' & & '' x \<longrightarrow>
        normalize_title L (normalize_title L x) = normalize_title L x)"
proof -
  have a: "L x = L y \<longrightarrow> normalize_title L x = normalize_title L y"
    by (simp add: normalize_title_def)
  have b: "ascii_faithful L \<and> ascii x \<and> ascii y \<and> list_all2 same_ascii_letter x y \<longrightarrow>
        normalize_title L x = normalize_title L y"
    by (auto simp: normalize_title_def ascii_faithful_def dest: same_ascii_letters_lower)
  have "ascii ''Nature''" and "ascii ''NATURE''"
    by (simp_all add: ascii_def)
  then have c: "ascii_faithful L \<longrightarrow>
        normalize_title L ''Nature'' = ''nature'' \<and> normalize_title L ''NATURE'' = ''nature''"
    by (simp add: ascii_faithful_def normalize_title_def ascii_lower_def ascii_lower_char_def
        amp_to_and_def)
  have d: "lower_stable L \<and> \<not> sublist '' & & '' (L x) \<longrightarrow>
        normalize_title L (normalize_title L x) = normalize_title L x"
    using normalize_title_twice by blast
  have e: "lower_stable L \<and> ascii_faithful L \<and> ascii x \<and> \<not> sublist '' & & '' x \<longrightarrow>
        normalize_title L (normalize_title L x) = normalize_title L x"
  proof (intro impI, elim conjE)
    assume st: "lower_stable L" and f: "ascii_faithful L" and ax: "ascii x"
      and n: "\<not> sublist '' & & '' x"
    have "L x = ascii_lower x" using f ax by (simp add: ascii_faithful_def)
    then have "\<not> sublist '' & & '' (L x)" using n by (simp add: sublist_lower_amps)
    then show "normalize_title L (normalize_title L x) = normalize_title L x"
      using st by (rule normalize_title_twice [rotated])
  qed
  show ?thesis using a b c d e by blast
qed

theorem normalize_title_case_insensitive_idempotent_witness:
  "ascii_faithful ascii_lower \<and> lower_stable ascii_lower
   \<and> ascii ''Theory, Culture & Society'' \<and> ascii ''THEORY, culture & SOCIETY''
   \<and> list_all2 same_ascii_letter ''Theory, Culture & Society'' ''THEORY, culture & SOCIETY''
   \<and> \<not> sublist '' & & '' ''Theory, Culture & Society''
   \<and> \<not> sublist '' & & '' (ascii_lower ''Theory, Culture & Society'')
   \<and> normalize_title ascii_lower ''Theory, Culture & Society''
       = normalize_title ascii_lower ''THEORY, culture & SOCIETY''
   \<and> normalize_title ascii_lower ''Nature'' = ''nature''
   \<and> normalize_title ascii_lower (normalize_title ascii_lower ''Theory, Culture & Society'')
       = normalize_title ascii_lower ''Theory, Culture & Society''"
proof -
  have a: "list_all2 same_ascii_letter ''Theory, Culture & Society'' ''THEORY, culture & SOCIETY''"
    by (simp add: same_ascii_letter_def ascii_lower_char_def)
  have b: "\<not> sublist '' & & '' ''Theory, Culture & Society''"
    by (simp add: sublist_Cons_right)
  have c: "\<not> sublist '' & & '' (ascii_lower ''Theory, Culture & Society'')"
    using b by (simp add: sublist_lower_amps)
  have d: "ascii ''Theory, Culture & Society''" "ascii ''THEORY, culture & SOCIETY''"
    by (simp_all add: ascii_def)
  show ?thesis
    using a b c d ascii_faithful_ascii_lower lower_stable_ascii_lower
      normalize_title_case_insensitive_idempotent
        [of ascii_lower "''Theory, Culture & Society''" "''THEORY, culture & SOCIETY''"]
    by blast
qed

text \<open>
  C9 as stated fails: in \<open>a & & b\<close> the first match consumes the space before the
  second ampersand, so one pass leaves \<open>a and & b\<close> and a second pass changes it again.
\<close>

theorem normalize_title_not_idempotent:
  "normalize_title ascii_lower ''a & & b'' = ''a and & b''
   \<and> normalize_title ascii_lower (normalize_title ascii_lower ''a & & b'') = ''a and and b''
   \<and> normalize_title ascii_lower (normalize_title ascii_lower ''a & & b'')
       \<noteq> normalize_title ascii_lower ''a & & b''"
  by (simp add: normalize_title_def ascii_lower_def ascii_lower_char_def amp_to_and_def)

section \<open>The zip helper\<close>

lemma my_zip_fallback:
  "\<not> (isinstance_list x \<and> isinstance_list y) \<Longrightarrow> my_zip x y = PyList [x, y]"
  by (auto simp: my_zip_def)

lemma my_zip_lists:
  "my_zip (PyList xs) (PyList ys) = PyList (map (\<lambda>(a, b). PyTuple [a, b]) (zip xs ys))"
  by (simp add: my_zip_def py_zip_def)

text \<open>
  C8. On two lists \<^verbatim>\<open>my_zip\<close> yields the element-wise pairs, as many as the shorter
  list has elements. When one of the inputs is not a list, it returns the two inputs
  themselves as the pair \<^verbatim>\<open>[x, y]\<close>, and raises nothing: no branch of the helper can
  raise. That pair is the two-element list of \<open>x\<close> and \<open>y\<close>, so \<^verbatim>\<open>zip_\<close> yields
  the two elements \<open>x\<close> and \<open>y\<close>.
\<close>

theorem my_zip_lists_or_pair:
  "length (zip_udf (PyList xs) (PyList ys)) = min (length xs) (length ys)
   \<and> (\<forall>i < min (length xs) (length ys).
         zip_udf (PyList xs) (PyList ys) ! i = PyTuple [xs ! i, ys ! i])
   \<and> (\<not> (isinstance_list x \<and> isinstance_list y) \<longrightarrow>
         my_zip x y = PyList [x, y] \<and> zip_udf x y = [x, y])"
  by (simp add: my_zip_fallback my_zip_lists zip_udf_def)

theorem my_zip_lists_or_pair_witness:
  "(0::nat) < min (length [PyStr ''Nature'', PyNone]) (length [PyStr ''A paper''])
   \<and> zip_udf (PyList [PyStr ''Nature'', PyNone]) (PyList [PyStr ''A paper''])
       = [PyTuple [PyStr ''Nature'', PyStr ''A paper'']]
   \<and> \<not> (isinstance_list (PyStr ''Nature'') \<and> isinstance_list PyNone)
   \<and> my_zip (PyStr ''Nature'') PyNone = PyList [PyStr ''Nature'', PyNone]"
  using my_zip_lists_or_pair
    [of "[PyStr ''Nature'', PyNone]" "[PyStr ''A paper'']" "PyStr ''Nature''" PyNone]
  by (simp add: zip_udf_def my_zip_lists)

section \<open>Joins\<close>

lemma in_inner_join:
  "(x, y) \<in> set (inner_join on xs ys) \<longleftrightarrow> x \<in> set xs \<and> y \<in> set ys \<and> on x y = Some True"
  by (auto simp: inner_join_def)

lemma in_left_outer_join:
  "(x, y) \<in> set (left_outer_join on nulls xs ys) \<longleftrightarrow>
     x \<in> set xs \<and> ((y \<in> set ys \<and> on x y = Some True)
                  \<or> (y = nulls \<and> (\<forall>z \<in> set ys. on x z \<noteq> Some True)))"
  by (auto simp: left_outer_join_def Let_def filter_empty_conv split: if_splits)

section \<open>Three-valued conditions\<close>

lemma present_iff: "present x \<longleftrightarrow> (\<exists>s. x = Some s \<and> s \<noteq> ''null'')"
  by (auto simp: present_def sql_neq_def split: option.splits)

lemma sql_or_True: "sql_or a b = Some True \<longleftrightarrow> a = Some True \<or> b = Some True"
  by (auto simp: sql_or_def)

lemma sql_and_True: "sql_and a b = Some True \<longleftrightarrow> a = Some True \<and> b = Some True"
  by (auto simp: sql_and_def)

lemma sql_eq_True: "sql_eq a b = Some True \<longleftrightarrow> (\<exists>v. a = Some v \<and> b = Some v)"
  by (auto simp: sql_eq_def split: option.splits)

lemma sql_neq_True:
  "sql_neq a b = Some True \<longleftrightarrow> (\<exists>v w. a = Some v \<and> b = Some w \<and> v \<noteq> w)"
  by (auto simp: sql_neq_def split: option.splits)

lemma sub_match_True:
  "sub_match r u = Some True \<longleftrightarrow>
     (\<exists>t. ref_journal_lc (fst r) = Some t \<and> Title u = Some t)
   \<or> (present (serial_issn (snd r))
       \<and> (serial_issn (snd r) = ISSN u \<or> serial_issn (snd r) = eISSN u))
   \<or> (present (serial_eissn (snd r))
       \<and> (serial_eissn (snd r) = ISSN u \<or> serial_eissn (snd r) = eISSN u))"
  unfolding sub_match_def sql_or_True sql_and_True sql_eq_True present_def
  by (auto simp: sql_neq_True)

section \<open>The reference extractor\<close>

lemma extract_filter_eq: "extract_filter = JournalNeqTitle"
  by (simp add: extract_filter_def py_and_def)

lemma extract_missing_source: "extract_ref_journals L [(None, b)] = []"
  by (simp add: extract_ref_journals_def extract_filter_eq df_filter_def with_lc_def sql_neq_def)

lemma extract_missing_work: "extract_ref_journals L [(a, None)] = []"
  by (cases a)
    (simp_all add: extract_ref_journals_def extract_filter_eq df_filter_def with_lc_def
      sql_neq_def)

lemma extract_both:
  "extract_ref_journals L [(Some s, Some t)] =
     (if L s \<noteq> L t \<and> L s \<noteq> ''null''
      then [\<lparr>ref_journal = Some s, ref_journal_lc = Some (L s)\<rparr>] else [])"
  by (simp add: extract_ref_journals_def extract_filter_eq df_filter_def with_lc_def
      select_journal_def journal_not_null_def sql_neq_def)

lemma extract_append:
  "extract_ref_journals L (xs @ ys) = extract_ref_journals L xs @ extract_ref_journals L ys"
  by (simp add: extract_ref_journals_def df_filter_def)

lemma extract_Cons:
  "extract_ref_journals L (p # ps) = extract_ref_journals L [p] @ extract_ref_journals L ps"
  using extract_append [of L "[p]" ps] by simp

lemma extract_insert:
  "extract_ref_journals L (xs @ p # ys)
     = extract_ref_journals L xs @ extract_ref_journals L [p] @ extract_ref_journals L ys"
  by (simp add: extract_append extract_Cons [of L p ys])

lemma in_extract_single:
  "r \<in> set (extract_ref_journals L [p]) \<longleftrightarrow>
     (\<exists>s t. p = (Some s, Some t) \<and> r = \<lparr>ref_journal = Some s, ref_journal_lc = Some (L s)\<rparr>
        \<and> L s \<noteq> L t \<and> L s \<noteq> ''null'')"
proof (cases p)
  case (Pair a b)
  show ?thesis
  proof (cases a)
    case None
    then show ?thesis using Pair by (simp add: extract_missing_source)
  next
    case (Some s)
    show ?thesis
    proof (cases b)
      case None
      then show ?thesis using Pair by (simp add: extract_missing_work)
    next
      case (Some t)
      then show ?thesis using Pair \<open>a = Some s\<close> by (simp add: extract_both)
    qed
  qed
qed

lemma in_extract:
  "r \<in> set (extract_ref_journals L ps) \<longleftrightarrow>
     (\<exists>s t. (Some s, Some t) \<in> set ps
        \<and> r = \<lparr>ref_journal = Some s, ref_journal_lc = Some (L s)\<rparr>
        \<and> L s \<noteq> L t \<and> L s \<noteq> ''null'')"
proof (induction ps)
  case Nil
  show ?case by (simp add: extract_ref_journals_def df_filter_def)
next
  case (Cons p ps)
  have "r \<in> set (extract_ref_journals L (p # ps)) \<longleftrightarrow>
      r \<in> set (extract_ref_journals L [p]) \<or> r \<in> set (extract_ref_journals L ps)"
    by (subst extract_Cons) simp
  then show ?case unfolding Cons in_extract_single by auto
qed

lemma extract_lc:
  "r \<in> set (extract_ref_journals L ps) \<Longrightarrow> ref_journal_lc r = map_option L (ref_journal r)"
  by (auto simp: in_extract)

lemma extract_not_null_titled:
  "r \<in> set (extract_ref_journals L ps) \<Longrightarrow> \<not> null_titled L r"
  by (auto simp: in_extract null_titled_def)


text \<open>
  C6, as amended. Python evaluates the chain of the three condition strings to its
  last operand: the first two strings are truthy and are discarded. The filter is
  therefore the third condition alone, \<^verbatim>\<open>ref_journal_lc!=ref_title_lc\<close>, which keeps
  the rows whose two lower-cased titles are both present and differ.
\<close>

theorem extract_filter_last_condition:
  "extract_filter = JournalNeqTitle
   \<and> cond_text extract_filter = ''ref_journal_lc!=ref_title_lc''
   \<and> df_filter (cond_sem extract_filter) rows = df_filter (cond_sem JournalNeqTitle) rows
   \<and> df_filter (cond_sem extract_filter) rows
       = filter (\<lambda>r. \<exists>s t. ref_journal_lc r = Some s \<and> ref_title_lc r = Some t \<and> s \<noteq> t) rows"
  by (simp add: extract_filter_eq df_filter_def sql_neq_True)

text \<open>
  C6 as stated fails: the filter is not the first condition alone. A reference whose
  source title and work title are both \<open>Health\<close> passes the first condition and is
  removed by the filter of the notebook.
\<close>

theorem extract_filter_not_first_condition:
  "df_filter (cond_sem extract_filter) [with_lc ascii_lower (Some ''Health'', Some ''Health'')] = []
   \<and> df_filter (cond_sem JournalNotNull) [with_lc ascii_lower (Some ''Health'', Some ''Health'')]
       = [with_lc ascii_lower (Some ''Health'', Some ''Health'')]
   \<and> df_filter (cond_sem extract_filter) [with_lc ascii_lower (Some ''Health'', Some ''Health'')]
       \<noteq> df_filter (cond_sem JournalNotNull)
            [with_lc ascii_lower (Some ''Health'', Some ''Health'')]"
  by (simp add: extract_filter_eq df_filter_def with_lc_def journal_not_null_def sql_neq_def
      ascii_lower_def ascii_lower_char_def)

section \<open>ASCII titles\<close>

text \<open>
  The concrete inputs of this development are ASCII. On such an input every
  lower-casing function that agrees with \<open>ascii_lower\<close> on ASCII strings gives
  the result that \<open>ascii_lower\<close> gives.
\<close>

lemma map_option_ascii:
  "ascii_faithful L \<Longrightarrow> ascii_col x \<Longrightarrow> map_option L x = map_option ascii_lower x"
  by (cases x) (simp_all add: ascii_faithful_def ascii_col_def)

lemma normalize_title_ascii:
  "ascii_faithful L \<Longrightarrow> ascii t \<Longrightarrow> normalize_title L t = normalize_title ascii_lower t"
  by (simp add: normalize_title_def ascii_faithful_def)

lemma with_lc_ascii:
  "ascii_faithful L \<Longrightarrow> ascii_col (fst p) \<Longrightarrow> ascii_col (snd p) \<Longrightarrow>
     with_lc L p = with_lc ascii_lower p"
  by (simp add: with_lc_def map_option_ascii)

lemma extract_ref_journals_ascii:
  assumes "ascii_faithful L" and "\<forall>p \<in> set ps. ascii_col (fst p) \<and> ascii_col (snd p)"
  shows "extract_ref_journals L ps = extract_ref_journals ascii_lower ps"
proof -
  have "map (with_lc L) ps = map (with_lc ascii_lower) ps"
    using assms by (simp add: with_lc_ascii)
  then show ?thesis unfolding extract_ref_journals_def by (rule arg_cong)
qed

lemma with_serial_lc_ascii:
  "ascii_faithful L \<Longrightarrow> ascii_col (serial s) \<Longrightarrow>
     with_serial_lc L s = with_serial_lc ascii_lower s"
  by (simp add: with_serial_lc_def map_option_ascii)

lemma normalize_sub_ascii:
  "ascii_faithful L \<Longrightarrow> ascii_col (Title u) \<Longrightarrow>
     normalize_sub L u = normalize_sub ascii_lower u"
  by (cases "Title u")
    (simp_all add: normalize_sub_def normalize_title_ascii ascii_col_def)

lemma with_journal_lc_ascii:
  "ascii_faithful L \<Longrightarrow> ascii_col (snd d) \<Longrightarrow>
     with_journal_lc L d = with_journal_lc ascii_lower d"
  by (simp add: with_journal_lc_def map_option_ascii)

section \<open>The citation tally\<close>

lemma in_group_count:
  "t \<in> set (group_count rows) \<longleftrightarrow>
     (\<exists>k \<in> set rows. t = \<lparr>ref_journal = ref_journal k, ref_journal_lc = ref_journal_lc k,
                             count = length (filter (\<lambda>r. r = k) rows)\<rparr>)"
  by (auto simp: group_count_def)

lemma group_count_key:
  "t \<in> set (group_count rows) \<Longrightarrow>
     \<exists>k \<in> set rows. ref_journal t = ref_journal k \<and> ref_journal_lc t = ref_journal_lc k"
  by (auto simp: in_group_count)

lemma group_count_count:
  assumes "t \<in> set (group_count rows)"
  shows "count t = length (filter (\<lambda>r. ref_journal r = ref_journal t
                                      \<and> ref_journal_lc r = ref_journal_lc t) rows)"
    and "1 \<le> count t"
proof -
  from assms obtain k where k: "k \<in> set rows"
    and t: "t = \<lparr>ref_journal = ref_journal k, ref_journal_lc = ref_journal_lc k,
                 count = length (filter (\<lambda>r. r = k) rows)\<rparr>"
    by (auto simp: in_group_count)
  have eq: "\<And>r::sel_row. (r = k) = (ref_journal r = ref_journal k \<and> ref_journal_lc r = ref_journal_lc k)"
    by auto
  show "count t = length (filter (\<lambda>r. ref_journal r = ref_journal t
                                      \<and> ref_journal_lc r = ref_journal_lc t) rows)"
    by (simp add: t eq)
  have "filter (\<lambda>r. r = k) rows \<noteq> []" using k by (simp add: filter_empty_conv)
  then show "1 \<le> count t" by (simp add: t Suc_le_eq)
qed

lemma group_count_distinct:
  "distinct (map (\<lambda>t. (ref_journal t, ref_journal_lc t)) (group_count rows))"
proof -
  have "map (\<lambda>t. (ref_journal t, ref_journal_lc t)) (group_count rows)
        = map (\<lambda>k. (ref_journal k, ref_journal_lc k)) (remdups rows)"
    by (simp add: group_count_def comp_def)
  moreover have "inj_on (\<lambda>k::sel_row. (ref_journal k, ref_journal_lc k)) (set (remdups rows))"
    by (rule inj_onI) auto
  ultimately show ?thesis by (simp add: distinct_map)
qed

lemma group_count_covers:
  "r \<in> set rows \<Longrightarrow>
     \<exists>t \<in> set (group_count rows). ref_journal t = ref_journal r \<and> ref_journal_lc t = ref_journal_lc r"
  by (force simp: in_group_count)

lemma tally_key_lc:
  assumes "t \<in> set (group_count (extract_ref_journals L ps))"
  shows "ref_journal_lc t = map_option L (ref_journal t)"
proof -
  from assms obtain k where "k \<in> set (extract_ref_journals L ps)"
    and "ref_journal t = ref_journal k" and "ref_journal_lc t = ref_journal_lc k"
    using group_count_key by blast
  then show ?thesis using extract_lc [of k L ps] by simp
qed

lemma tally_count_by_raw_title:
  assumes "t \<in> set (group_count (extract_ref_journals L ps))"
  shows "count t
           = length (filter (\<lambda>r. ref_journal r = ref_journal t) (extract_ref_journals L ps))"
proof -
  have "filter (\<lambda>r. ref_journal r = ref_journal t \<and> ref_journal_lc r = ref_journal_lc t)
            (extract_ref_journals L ps)
          = filter (\<lambda>r. ref_journal r = ref_journal t) (extract_ref_journals L ps)"
    by (rule filter_cong) (auto simp: extract_lc tally_key_lc [OF assms])
  then show ?thesis using group_count_count(1) [OF assms] by simp
qed

lemma retained_pair_counted:
  assumes "L s \<noteq> L t" and "L s \<noteq> ''null''"
  shows "extract_ref_journals L (xs @ (Some s, Some t) # ys)
           = extract_ref_journals L xs
             @ \<lparr>ref_journal = Some s, ref_journal_lc = Some (L s)\<rparr> # extract_ref_journals L ys"
    and "\<exists>row \<in> set (group_count (extract_ref_journals L (xs @ (Some s, Some t) # ys))).
           ref_journal row = Some s"
    and "\<forall>row \<in> set (group_count (extract_ref_journals L (xs @ (Some s, Some t) # ys))).
           ref_journal row = Some s \<longrightarrow>
             ref_journal_lc row = Some (L s)
             \<and> count row = Suc (length (filter (\<lambda>r. ref_journal r = Some s)
                                      (extract_ref_journals L (xs @ ys))))"
proof -
  let ?r = "\<lparr>ref_journal = Some s, ref_journal_lc = Some (L s)\<rparr>"
  let ?ps = "xs @ (Some s, Some t) # ys"
  show split: "extract_ref_journals L ?ps
           = extract_ref_journals L xs @ ?r # extract_ref_journals L ys"
    using assms by (simp add: extract_insert extract_both)
  then have "?r \<in> set (extract_ref_journals L ?ps)" by simp
  then show "\<exists>row \<in> set (group_count (extract_ref_journals L ?ps)). ref_journal row = Some s"
    using group_count_covers [of ?r "extract_ref_journals L ?ps"] by auto
  show "\<forall>row \<in> set (group_count (extract_ref_journals L ?ps)).
           ref_journal row = Some s \<longrightarrow>
             ref_journal_lc row = Some (L s)
             \<and> count row = Suc (length (filter (\<lambda>r. ref_journal r = Some s)
                                      (extract_ref_journals L (xs @ ys))))"
  proof (intro ballI impI)
    fix row assume row: "row \<in> set (group_count (extract_ref_journals L ?ps))"
      and s: "ref_journal row = Some s"
    have lc: "ref_journal_lc row = Some (L s)"
      using tally_key_lc [OF row] s by simp
    have "count row = length (filter (\<lambda>r. ref_journal r = Some s) (extract_ref_journals L ?ps))"
      using tally_count_by_raw_title [OF row] s by simp
    also have "\<dots> = Suc (length (filter (\<lambda>r. ref_journal r = Some s)
                                      (extract_ref_journals L (xs @ ys))))"
      unfolding split by (simp add: extract_append)
    finally show "ref_journal_lc row = Some (L s)
             \<and> count row = Suc (length (filter (\<lambda>r. ref_journal r = Some s)
                                      (extract_ref_journals L (xs @ ys))))"
      using lc by simp
  qed
qed

lemma dropped_pair:
  "extract_ref_journals L [p] = [] \<Longrightarrow>
     extract_ref_journals L (xs @ p # ys) = extract_ref_journals L (xs @ ys)"
  by (simp add: extract_append extract_Cons [of L p ys])

text \<open>
  C4, as amended. A reference pair is retained only if its source title and its work
  title are both present, their lower-cased forms differ, and the lower-cased source
  title is not \<^verbatim>\<open>null\<close>. A pair with both titles present, different lower-cased forms
  and neither of them \<^verbatim>\<open>null\<close> is retained: it gives one row of the extractor's output,
  in its place, and the tally row of its source title counts one more than without
  the pair. A pair whose work title is missing is dropped, and so are a pair whose
  source title is missing and a pair whose two lower-cased titles are equal: the
  output is the same as without the pair.
\<close>

theorem extract_ref_journals_retains:
  "(r \<in> set (extract_ref_journals L ps) \<longrightarrow>
      (\<exists>s t. (Some s, Some t) \<in> set ps
         \<and> r = \<lparr>ref_journal = Some s, ref_journal_lc = Some (L s)\<rparr>
         \<and> L s \<noteq> L t \<and> L s \<noteq> ''null''))
   \<and> (L s \<noteq> L t \<and> L s \<noteq> ''null'' \<and> L t \<noteq> ''null'' \<longrightarrow>
        extract_ref_journals L (xs @ (Some s, Some t) # ys)
          = extract_ref_journals L xs
            @ \<lparr>ref_journal = Some s, ref_journal_lc = Some (L s)\<rparr> # extract_ref_journals L ys
        \<and> (\<exists>row \<in> set (group_count (extract_ref_journals L (xs @ (Some s, Some t) # ys))).
              ref_journal row = Some s)
        \<and> (\<forall>row \<in> set (group_count (extract_ref_journals L (xs @ (Some s, Some t) # ys))).
              ref_journal row = Some s \<longrightarrow>
                ref_journal_lc row = Some (L s)
                \<and> count row = Suc (length (filter (\<lambda>r. ref_journal r = Some s)
                                         (extract_ref_journals L (xs @ ys))))))
   \<and> extract_ref_journals L (xs @ (a, None) # ys) = extract_ref_journals L (xs @ ys)
   \<and> extract_ref_journals L (xs @ (None, b) # ys) = extract_ref_journals L (xs @ ys)
   \<and> (L s = L t \<longrightarrow>
        extract_ref_journals L (xs @ (Some s, Some t) # ys) = extract_ref_journals L (xs @ ys))"
proof -
  have a: "r \<in> set (extract_ref_journals L ps) \<longrightarrow>
      (\<exists>s t. (Some s, Some t) \<in> set ps
         \<and> r = \<lparr>ref_journal = Some s, ref_journal_lc = Some (L s)\<rparr>
         \<and> L s \<noteq> L t \<and> L s \<noteq> ''null'')"
    by (simp add: in_extract)
  have b: "extract_ref_journals L (xs @ (a, None) # ys) = extract_ref_journals L (xs @ ys)"
    by (rule dropped_pair) (rule extract_missing_work)
  have c: "extract_ref_journals L (xs @ (None, b) # ys) = extract_ref_journals L (xs @ ys)"
    by (rule dropped_pair) (rule extract_missing_source)
  have d: "L s = L t \<longrightarrow>
        extract_ref_journals L (xs @ (Some s, Some t) # ys) = extract_ref_journals L (xs @ ys)"
    by (auto intro!: dropped_pair simp: extract_both)
  show ?thesis
    using a b c d retained_pair_counted [of L s t xs ys] by blast
qed

theorem extract_ref_journals_retains_witness:
  "ascii_lower ''Nature'' \<noteq> ascii_lower ''A paper'' \<and> ascii_lower ''Nature'' \<noteq> ''null''
   \<and> ascii_lower ''A paper'' \<noteq> ''null''
   \<and> extract_ref_journals ascii_lower
        ([(Some ''Nature'', Some ''B'')] @ (Some ''Nature'', Some ''A paper'')
           # [(Some ''Science'', None)])
       = [\<lparr>ref_journal = Some ''Nature'', ref_journal_lc = Some ''nature''\<rparr>,
          \<lparr>ref_journal = Some ''Nature'', ref_journal_lc = Some ''nature''\<rparr>]
   \<and> group_count (extract_ref_journals ascii_lower
        ([(Some ''Nature'', Some ''B'')] @ (Some ''Nature'', Some ''A paper'')
           # [(Some ''Science'', None)]))
       = [\<lparr>ref_journal = Some ''Nature'', ref_journal_lc = Some ''nature'', count = 2\<rparr>]
   \<and> length (filter (\<lambda>r. ref_journal r = Some ''Nature'')
        (extract_ref_journals ascii_lower
           ([(Some ''Nature'', Some ''B'')] @ [(Some ''Science'', None)]))) = 1"
  using extract_ref_journals_retains
    [where L = ascii_lower and s = "''Nature''" and t = "''A paper''"
       and xs = "[(Some ''Nature'', Some ''B'')]" and ys = "[(Some ''Science'', None)]"
       and r = "\<lparr>ref_journal = Some ''Nature'', ref_journal_lc = Some ''nature''\<rparr>"
       and ps = "[(Some ''Nature'', Some ''B''), (Some ''Nature'', Some ''A paper''),
                  (Some ''Science'', None)]"
       and a = "Some ''Science''" and b = None]
  by (simp add: extract_ref_journals_def extract_filter_eq df_filter_def with_lc_def
      select_journal_def journal_not_null_def sql_neq_def ascii_lower_def ascii_lower_char_def
      group_count_def)

text \<open>
  C4 as stated fails: a pair with the source title \<open>Nature\<close> and no work title is
  dropped, because the comparison of the two lower-cased titles is NULL, and it
  reaches no tally row.
\<close>

theorem missing_work_title_dropped:
  "extract_ref_journals ascii_lower [(Some ''Nature'', None)] = []
   \<and> group_count (extract_ref_journals ascii_lower [(Some ''Nature'', None)]) = []"
  by (simp add: extract_missing_work group_count_def)

text \<open>
  C3, as amended. The tally groups the retained pairs by the raw source title
  together with its lower-cased form, which the raw title determines: there is one
  tally row for every distinct raw source title, its count is the number of retained
  pairs with that raw title and is at least one, and every retained pair contributes
  to the row of its raw title.
\<close>

theorem tally_by_raw_title:
  "distinct (map ref_journal (group_count (extract_ref_journals L ps)))
   \<and> (\<forall>t \<in> set (group_count (extract_ref_journals L ps)).
         count t = length (filter (\<lambda>r. ref_journal r = ref_journal t)
                             (extract_ref_journals L ps))
         \<and> 1 \<le> count t
         \<and> ref_journal_lc t = map_option L (ref_journal t))
   \<and> (\<forall>r \<in> set (extract_ref_journals L ps).
         \<exists>t \<in> set (group_count (extract_ref_journals L ps)). ref_journal t = ref_journal r)"
proof -
  let ?rows = "extract_ref_journals L ps"
  have key: "\<And>t. t \<in> set (group_count ?rows) \<Longrightarrow> ref_journal_lc t = map_option L (ref_journal t)"
    by (rule tally_key_lc)
  have "inj_on fst (set (map (\<lambda>t. (ref_journal t, ref_journal_lc t)) (group_count ?rows)))"
    by (rule inj_onI) (auto simp: key)
  then have "distinct (map fst (map (\<lambda>t. (ref_journal t, ref_journal_lc t)) (group_count ?rows)))"
    using group_count_distinct [of ?rows] by (simp only: distinct_map)
  then have d: "distinct (map ref_journal (group_count ?rows))"
    by (simp add: comp_def)
  have c: "\<forall>t \<in> set (group_count ?rows).
         count t = length (filter (\<lambda>r. ref_journal r = ref_journal t) ?rows)"
    using tally_count_by_raw_title by blast
  show ?thesis
    using d c key group_count_count(2) group_count_covers by blast
qed

text \<open>The definitions that evaluate the pipeline on a concrete input.\<close>

lemmas eval_defs = extract_ref_journals_def extract_filter_eq df_filter_def with_lc_def
  select_journal_def journal_not_null_def sql_neq_def sql_eq_def sql_or_def sql_and_def
  ascii_lower_def ascii_lower_char_def group_count_def join_serials_def inner_join_def
  serial_match_def join_subscriptions_def left_outer_join_def sub_match_def null_sub_def
  with_serial_lc_def load_ss_df_def normalize_sub_def normalize_title_def amp_to_and_def
  null_titled_def

theorem tally_by_raw_title_witness:
  "group_count (extract_ref_journals ascii_lower
      [(Some ''Nature'', Some ''a''), (Some ''Nature'', Some ''b''), (Some ''NATURE'', Some ''c'')])
     = [\<lparr>ref_journal = Some ''Nature'', ref_journal_lc = Some ''nature'', count = 2\<rparr>,
        \<lparr>ref_journal = Some ''NATURE'', ref_journal_lc = Some ''nature'', count = 1\<rparr>]
   \<and> distinct (map ref_journal (group_count (extract_ref_journals ascii_lower
      [(Some ''Nature'', Some ''a''), (Some ''Nature'', Some ''b''), (Some ''NATURE'', Some ''c'')])))
   \<and> length (filter (\<lambda>r. ref_journal r = Some ''Nature'') (extract_ref_journals ascii_lower
      [(Some ''Nature'', Some ''a''), (Some ''Nature'', Some ''b''), (Some ''NATURE'', Some ''c'')])) = 2"
  using tally_by_raw_title
    [of ascii_lower
      "[(Some ''Nature'', Some ''a''), (Some ''Nature'', Some ''b''), (Some ''NATURE'', Some ''c'')]"]
  by (simp add: eval_defs)

text \<open>
  C3 as stated fails: the raw title is part of the grouping key, so two retained
  pairs whose source titles are \<open>Nature\<close> and \<open>NATURE\<close> give two tally rows of
  count one, not one row of count two.
\<close>

theorem tally_splits_letter_case:
  "group_count (extract_ref_journals ascii_lower
      [(Some ''Nature'', Some ''a''), (Some ''NATURE'', Some ''b'')])
     = [\<lparr>ref_journal = Some ''Nature'', ref_journal_lc = Some ''nature'', count = 1\<rparr>,
        \<lparr>ref_journal = Some ''NATURE'', ref_journal_lc = Some ''nature'', count = 1\<rparr>]"
  by (simp add: eval_defs)

section \<open>The subscription join condition\<close>

lemma tally_title_present:
  assumes "t \<in> set (group_count (extract_ref_journals L ps))"
  shows "\<exists>j. ref_journal t = Some j \<and> ref_journal_lc t = Some (L j)"
proof -
  from assms obtain k where k: "k \<in> set (extract_ref_journals L ps)"
    and "ref_journal t = ref_journal k"
    using group_count_key by blast
  moreover from k obtain j where "ref_journal k = Some j" by (auto simp: in_extract)
  ultimately show ?thesis using tally_key_lc [OF assms] by simp
qed

lemma join_serials_fst:
  "x \<in> set (join_serials tally serial_df) \<Longrightarrow> fst x \<in> set tally"
  by (cases x) (simp add: join_serials_def in_inner_join)

lemma join_subscriptions_fst:
  "x \<in> set (join_subscriptions rows ss_df) \<Longrightarrow> fst x \<in> set rows"
  by (cases x) (simp add: join_subscriptions_def in_left_outer_join)

lemma sql_eq_Some: "sql_eq (Some a) b = Some True \<longleftrightarrow> b = Some a"
  by (auto simp: sql_eq_def split: option.splits)

lemma normalize_sub_fields:
  "Title (normalize_sub L v) = map_option (\<lambda>t. regexp_replace (L t) '' & '' '' and '') (Title v)"
  "ISSN (normalize_sub L v) = ISSN v"
  "eISSN (normalize_sub L v) = eISSN v"
  by (simp_all add: normalize_sub_def normalize_title_def amp_to_and_def cong: map_option_cong)

lemma title_branch:
  assumes "t \<in> set (group_count (extract_ref_journals L ps))"
  shows "(\<exists>x. ref_journal_lc t = Some x \<and> Title (normalize_sub L v) = Some x) \<longleftrightarrow>
         (\<exists>j w. ref_journal t = Some j \<and> Title v = Some w
            \<and> L j = regexp_replace (L w) '' & '' '' and '')"
proof -
  obtain j where j: "ref_journal t = Some j" "ref_journal_lc t = Some (L j)"
    using tally_title_present [OF assms] by blast
  show ?thesis
    by (cases "Title v") (auto simp: j normalize_sub_fields)
qed

lemma sub_match_pipeline:
  assumes "r \<in> set (join_serials (group_count (extract_ref_journals L ps)) serial_df)"
  shows "sub_match r (normalize_sub L v) = Some True \<longleftrightarrow>
      (\<exists>j w. ref_journal (fst r) = Some j \<and> Title v = Some w
         \<and> L j = regexp_replace (L w) '' & '' '' and '')
    \<or> (present (serial_issn (snd r))
        \<and> (serial_issn (snd r) = ISSN v \<or> serial_issn (snd r) = eISSN v))
    \<or> (present (serial_eissn (snd r))
        \<and> (serial_eissn (snd r) = ISSN v \<or> serial_eissn (snd r) = eISSN v))"
proof -
  have "fst r \<in> set (group_count (extract_ref_journals L ps))"
    using assms by (rule join_serials_fst)
  then have "(\<exists>x. ref_journal_lc (fst r) = Some x \<and> Title (normalize_sub L v) = Some x) \<longleftrightarrow>
         (\<exists>j w. ref_journal (fst r) = Some j \<and> Title v = Some w
            \<and> L j = regexp_replace (L w) '' & '' '' and '')"
    by (rule title_branch)
  then show ?thesis
    unfolding sub_match_True by (simp only: normalize_sub_fields(2,3))
qed

text \<open>
  C1, as amended. A stage-1 row and a subscription row are joined exactly when the
  lower-cased source title of the reference equals the subscription title after
  lower-casing and the replacement of \<open>space ampersand space\<close> by \<open>space and
  space\<close> (the reference title itself gets no replacement), or the serial's ISSN is
  present and equals the subscription's ISSN or eISSN, or the serial's eISSN is
  present and equals one of the two. An identifier is present when it passes the
  notebook's guard: it is a string, and not the string \<^verbatim>\<open>null\<close>. A comparison with a
  missing identifier is never TRUE: when the serial has no identifier, or the
  subscription has none, only the titles can join the rows.
\<close>

theorem subscription_join_matches:
  assumes "r \<in> set (join_serials (group_count (extract_ref_journals L ps)) serial_df)"
  shows
  "(sub_match r (normalize_sub L v) = Some True \<longleftrightarrow>
      (\<exists>j w. ref_journal (fst r) = Some j \<and> Title v = Some w
         \<and> L j = regexp_replace (L w) '' & '' '' and '')
    \<or> (present (serial_issn (snd r))
        \<and> (serial_issn (snd r) = ISSN v \<or> serial_issn (snd r) = eISSN v))
    \<or> (present (serial_eissn (snd r))
        \<and> (serial_eissn (snd r) = ISSN v \<or> serial_eissn (snd r) = eISSN v)))
   \<and> (present x \<longleftrightarrow> (\<exists>i. x = Some i \<and> i \<noteq> ''null''))
   \<and> (serial_issn (snd r) = None \<and> serial_eissn (snd r) = None \<longrightarrow>
        (sub_match r (normalize_sub L v) = Some True \<longleftrightarrow>
           (\<exists>j w. ref_journal (fst r) = Some j \<and> Title v = Some w
              \<and> L j = regexp_replace (L w) '' & '' '' and '')))
   \<and> (ISSN v = None \<and> eISSN v = None \<longrightarrow>
        (sub_match r (normalize_sub L v) = Some True \<longleftrightarrow>
           (\<exists>j w. ref_journal (fst r) = Some j \<and> Title v = Some w
              \<and> L j = regexp_replace (L w) '' & '' '' and '')))
   \<and> (v \<in> set csv \<and> normalize_sub L v \<noteq> null_sub \<longrightarrow>
        ((r, normalize_sub L v)
            \<in> set (join_subscriptions
                     (join_serials (group_count (extract_ref_journals L ps)) serial_df)
                     (load_ss_df L csv))
         \<longleftrightarrow> sub_match r (normalize_sub L v) = Some True))"
proof -
  note m = sub_match_pipeline [OF assms, of v]
  have a: "serial_issn (snd r) = None \<and> serial_eissn (snd r) = None \<longrightarrow>
        (sub_match r (normalize_sub L v) = Some True \<longleftrightarrow>
           (\<exists>j w. ref_journal (fst r) = Some j \<and> Title v = Some w
              \<and> L j = regexp_replace (L w) '' & '' '' and ''))"
    unfolding m by (auto simp: present_iff)
  have b: "ISSN v = None \<and> eISSN v = None \<longrightarrow>
        (sub_match r (normalize_sub L v) = Some True \<longleftrightarrow>
           (\<exists>j w. ref_journal (fst r) = Some j \<and> Title v = Some w
              \<and> L j = regexp_replace (L w) '' & '' '' and ''))"
    unfolding m by (auto simp: present_iff)
  have c: "v \<in> set csv \<and> normalize_sub L v \<noteq> null_sub \<longrightarrow>
        ((r, normalize_sub L v)
            \<in> set (join_subscriptions
                     (join_serials (group_count (extract_ref_journals L ps)) serial_df)
                     (load_ss_df L csv))
         \<longleftrightarrow> sub_match r (normalize_sub L v) = Some True)"
    using assms by (auto simp: join_subscriptions_def in_left_outer_join load_ss_df_def)
  show ?thesis using m a b c present_iff by blast
qed

theorem subscription_join_matches_witness:
  "join_serials (group_count (extract_ref_journals ascii_lower
         [(Some ''Annals of Applied Probability'', Some ''A paper''),
          (Some ''Annals of Applied Probability'', Some ''B paper''),
          (Some ''Annals of Applied Probability'', Some ''C paper'')]))
       [with_serial_lc ascii_lower
           \<lparr>serial_id = Some ''24710'', serial = Some ''Annals of Applied Probability'',
            serial_issn = Some ''1050-5164'', serial_eissn = None, open_access = None\<rparr>]
     = [(\<lparr>ref_journal = Some ''Annals of Applied Probability'',
          ref_journal_lc = Some ''annals of applied probability'', count = 3\<rparr>,
        \<lparr>serial_id = Some ''24710'', serial = Some ''Annals of Applied Probability'',
          serial_issn = Some ''1050-5164'', serial_eissn = None, open_access = None,
          serial_lc = Some ''annals of applied probability''\<rparr>)]
   \<and> present (Some ''1050-5164'')
   \<and> sub_match
        (\<lparr>ref_journal = Some ''Annals of Applied Probability'',
          ref_journal_lc = Some ''annals of applied probability'', count = 3\<rparr>,
        \<lparr>serial_id = Some ''24710'', serial = Some ''Annals of Applied Probability'',
          serial_issn = Some ''1050-5164'', serial_eissn = None, open_access = None,
          serial_lc = Some ''annals of applied probability''\<rparr>)
        (normalize_sub ascii_lower \<lparr>Title = Some ''Ann. Appl. Probab.'', ISSN = None, eISSN = Some ''1050-5164''\<rparr>) = Some True
   \<and> normalize_sub ascii_lower \<lparr>Title = Some ''Ann. Appl. Probab.'', ISSN = None, eISSN = Some ''1050-5164''\<rparr> \<noteq> null_sub
   \<and> ((\<lparr>ref_journal = Some ''Annals of Applied Probability'',
          ref_journal_lc = Some ''annals of applied probability'', count = 3\<rparr>,
        \<lparr>serial_id = Some ''24710'', serial = Some ''Annals of Applied Probability'',
          serial_issn = Some ''1050-5164'', serial_eissn = None, open_access = None,
          serial_lc = Some ''annals of applied probability''\<rparr>),
       normalize_sub ascii_lower \<lparr>Title = Some ''Ann. Appl. Probab.'', ISSN = None, eISSN = Some ''1050-5164''\<rparr>)
      \<in> set (join_subscriptions
           (join_serials (group_count (extract_ref_journals ascii_lower
              [(Some ''Annals of Applied Probability'', Some ''A paper''),
          (Some ''Annals of Applied Probability'', Some ''B paper''),
          (Some ''Annals of Applied Probability'', Some ''C paper'')]))
            [with_serial_lc ascii_lower
           \<lparr>serial_id = Some ''24710'', serial = Some ''Annals of Applied Probability'',
            serial_issn = Some ''1050-5164'', serial_eissn = None, open_access = None\<rparr>])
           (load_ss_df ascii_lower [\<lparr>Title = Some ''Ann. Appl. Probab.'', ISSN = None, eISSN = Some ''1050-5164''\<rparr>]))
   \<and> join_serials (group_count (extract_ref_journals ascii_lower [(Some ''Health'', Some ''A paper'')]))
       [with_serial_lc ascii_lower
           \<lparr>serial_id = Some ''1'', serial = Some ''Health'',
            serial_issn = None, serial_eissn = None, open_access = None\<rparr>]
     = [(\<lparr>ref_journal = Some ''Health'', ref_journal_lc = Some ''health'', count = 1\<rparr>,
        \<lparr>serial_id = Some ''1'', serial = Some ''Health'',
          serial_issn = None, serial_eissn = None, open_access = None,
          serial_lc = Some ''health''\<rparr>)]
   \<and> sub_match
        (\<lparr>ref_journal = Some ''Health'', ref_journal_lc = Some ''health'', count = 1\<rparr>,
        \<lparr>serial_id = Some ''1'', serial = Some ''Health'',
          serial_issn = None, serial_eissn = None, open_access = None,
          serial_lc = Some ''health''\<rparr>)
        (normalize_sub ascii_lower \<lparr>Title = Some ''Wealth'', ISSN = None, eISSN = None\<rparr>) \<noteq> Some True"
proof -
  have a: "(\<lparr>ref_journal = Some ''Annals of Applied Probability'',
          ref_journal_lc = Some ''annals of applied probability'', count = 3\<rparr>,
        \<lparr>serial_id = Some ''24710'', serial = Some ''Annals of Applied Probability'',
          serial_issn = Some ''1050-5164'', serial_eissn = None, open_access = None,
          serial_lc = Some ''annals of applied probability''\<rparr>)
      \<in> set (join_serials (group_count (extract_ref_journals ascii_lower
         [(Some ''Annals of Applied Probability'', Some ''A paper''),
          (Some ''Annals of Applied Probability'', Some ''B paper''),
          (Some ''Annals of Applied Probability'', Some ''C paper'')]))
       [with_serial_lc ascii_lower
           \<lparr>serial_id = Some ''24710'', serial = Some ''Annals of Applied Probability'',
            serial_issn = Some ''1050-5164'', serial_eissn = None, open_access = None\<rparr>])"
    by (simp add: eval_defs)
  have b: "(\<lparr>ref_journal = Some ''Health'', ref_journal_lc = Some ''health'', count = 1\<rparr>,
        \<lparr>serial_id = Some ''1'', serial = Some ''Health'',
          serial_issn = None, serial_eissn = None, open_access = None,
          serial_lc = Some ''health''\<rparr>)
      \<in> set (join_serials (group_count (extract_ref_journals ascii_lower [(Some ''Health'', Some ''A paper'')]))
       [with_serial_lc ascii_lower
           \<lparr>serial_id = Some ''1'', serial = Some ''Health'',
            serial_issn = None, serial_eissn = None, open_access = None\<rparr>])"
    by (simp add: eval_defs)
  have c: "join_serials (group_count (extract_ref_journals ascii_lower
         [(Some ''Annals of Applied Probability'', Some ''A paper''),
          (Some ''Annals of Applied Probability'', Some ''B paper''),
          (Some ''Annals of Applied Probability'', Some ''C paper'')]))
       [with_serial_lc ascii_lower
           \<lparr>serial_id = Some ''24710'', serial = Some ''Annals of Applied Probability'',
            serial_issn = Some ''1050-5164'', serial_eissn = None, open_access = None\<rparr>]
     = [(\<lparr>ref_journal = Some ''Annals of Applied Probability'',
          ref_journal_lc = Some ''annals of applied probability'', count = 3\<rparr>,
        \<lparr>serial_id = Some ''24710'', serial = Some ''Annals of Applied Probability'',
          serial_issn = Some ''1050-5164'', serial_eissn = None, open_access = None,
          serial_lc = Some ''annals of applied probability''\<rparr>)]"
    by (simp add: eval_defs)
  have d: "join_serials (group_count (extract_ref_journals ascii_lower [(Some ''Health'', Some ''A paper'')]))
       [with_serial_lc ascii_lower
           \<lparr>serial_id = Some ''1'', serial = Some ''Health'',
            serial_issn = None, serial_eissn = None, open_access = None\<rparr>]
     = [(\<lparr>ref_journal = Some ''Health'', ref_journal_lc = Some ''health'', count = 1\<rparr>,
        \<lparr>serial_id = Some ''1'', serial = Some ''Health'',
          serial_issn = None, serial_eissn = None, open_access = None,
          serial_lc = Some ''health''\<rparr>)]"
    by (simp add: eval_defs)
  have e: "normalize_sub ascii_lower \<lparr>Title = Some ''Ann. Appl. Probab.'', ISSN = None, eISSN = Some ''1050-5164''\<rparr> \<noteq> null_sub"
    by (simp add: normalize_sub_def null_sub_def)
  show ?thesis
    using c d e
      subscription_join_matches [OF a, of "\<lparr>Title = Some ''Ann. Appl. Probab.'', ISSN = None, eISSN = Some ''1050-5164''\<rparr>" "Some ''1050-5164''" "[\<lparr>Title = Some ''Ann. Appl. Probab.'', ISSN = None, eISSN = Some ''1050-5164''\<rparr>]"]
      subscription_join_matches [OF b, of "\<lparr>Title = Some ''Wealth'', ISSN = None, eISSN = None\<rparr>" None "[]"]
    by (simp add: ascii_lower_def ascii_lower_char_def)
qed

text \<open>
  C1 as stated fails: equal normalised titles do not always join. The titles
  \<open>Law & Policy\<close> and \<open>Law and Policy\<close> have the same normal form, but a reference
  and serial titled \<open>Law & Policy\<close> keep the ampersand and do not match the
  subscription \<open>Law and Policy\<close>.
\<close>

theorem equal_normal_forms_unmatched:
  "normalize_title ascii_lower ''Law & Policy'' = normalize_title ascii_lower ''Law and Policy''
   \<and> join_serials
        (group_count (extract_ref_journals ascii_lower [(Some ''Law & Policy'', Some ''A paper'')]))
        [with_serial_lc ascii_lower
           \<lparr>serial_id = Some ''1'', serial = Some ''Law & Policy'',
            serial_issn = None, serial_eissn = None, open_access = None\<rparr>]
       = [(\<lparr>ref_journal = Some ''Law & Policy'', ref_journal_lc = Some ''law & policy'',
            count = 1\<rparr>,
           \<lparr>serial_id = Some ''1'', serial = Some ''Law & Policy'',
            serial_issn = None, serial_eissn = None, open_access = None,
            serial_lc = Some ''law & policy''\<rparr>)]
   \<and> sub_match
        (\<lparr>ref_journal = Some ''Law & Policy'', ref_journal_lc = Some ''law & policy'',
            count = 1\<rparr>,
         \<lparr>serial_id = Some ''1'', serial = Some ''Law & Policy'',
            serial_issn = None, serial_eissn = None, open_access = None,
            serial_lc = Some ''law & policy''\<rparr>)
        (normalize_sub ascii_lower \<lparr>Title = Some ''Law and Policy'', ISSN = None, eISSN = None\<rparr>)
       \<noteq> Some True"
  by (simp add: eval_defs)

section \<open>Which titles are normalised\<close>

lemma serial_match_pipeline:
  assumes "t \<in> set (group_count (extract_ref_journals L ps))"
  shows "serial_match t (with_serial_lc L sr) = Some True \<longleftrightarrow>
         (\<exists>j s. ref_journal t = Some j \<and> serial sr = Some s \<and> L s = L j)"
proof -
  obtain j where j: "ref_journal t = Some j" "ref_journal_lc t = Some (L j)"
    using tally_title_present [OF assms] by blast
  show ?thesis
    by (cases "serial sr") (auto simp: serial_match_def with_serial_lc_def j sql_eq_Some)
qed

text \<open>
  C5, as amended. The reference source titles and the serial titles are lower-cased
  and nothing else; the subscription titles are lower-cased and then have every
  \<open>space ampersand space\<close> replaced by \<open>space and space\<close>. So a tally row joins a
  serial when their titles have the same lower-cased form, and its title equals a
  subscription title when the lower-cased reference title is the normal form of the
  subscription title: a subscription titled \<open>Theory, Culture & Society\<close> has the
  title of a serial named \<open>Theory, Culture and Society\<close>.
\<close>

theorem title_normalisation_by_side:
  "ref_journal_lc (with_lc L (Some j, w)) = Some (L j)
   \<and> serial_lc (with_serial_lc L sr) = map_option L (serial sr)
   \<and> Title (normalize_sub L u)
       = map_option (\<lambda>t. regexp_replace (L t) '' & '' '' and '') (Title u)
   \<and> (t \<in> set (group_count (extract_ref_journals L ps)) \<longrightarrow>
        (serial_match t (with_serial_lc L sr) = Some True
           \<longleftrightarrow> (\<exists>j s. ref_journal t = Some j \<and> serial sr = Some s \<and> L s = L j))
        \<and> (sql_eq (ref_journal_lc t) (Title (normalize_sub L u)) = Some True
           \<longleftrightarrow> (\<exists>j w. ref_journal t = Some j \<and> Title u = Some w
                  \<and> L j = regexp_replace (L w) '' & '' '' and '')))
   \<and> (ascii_faithful L \<longrightarrow>
        regexp_replace (L ''Theory, Culture & Society'') '' & '' '' and ''
          = L ''Theory, Culture and Society'')"
proof -
  have a: "ref_journal_lc (with_lc L (Some j, w)) = Some (L j)"
    by (simp add: with_lc_def)
  have b: "serial_lc (with_serial_lc L sr) = map_option L (serial sr)"
    by (simp add: with_serial_lc_def)
  have c: "Title (normalize_sub L u)
       = map_option (\<lambda>t. regexp_replace (L t) '' & '' '' and '') (Title u)"
    by (rule normalize_sub_fields)
  have d: "t \<in> set (group_count (extract_ref_journals L ps)) \<longrightarrow>
        (serial_match t (with_serial_lc L sr) = Some True
           \<longleftrightarrow> (\<exists>j s. ref_journal t = Some j \<and> serial sr = Some s \<and> L s = L j))
        \<and> (sql_eq (ref_journal_lc t) (Title (normalize_sub L u)) = Some True
           \<longleftrightarrow> (\<exists>j w. ref_journal t = Some j \<and> Title u = Some w
                  \<and> L j = regexp_replace (L w) '' & '' '' and ''))"
    using serial_match_pipeline [of t L ps sr] title_branch [of t L ps u]
    by (simp add: sql_eq_True)
  have "ascii ''Theory, Culture & Society''" and "ascii ''Theory, Culture and Society''"
    by (simp_all add: ascii_def)
  then have e: "ascii_faithful L \<longrightarrow>
        regexp_replace (L ''Theory, Culture & Society'') '' & '' '' and ''
          = L ''Theory, Culture and Society''"
    by (simp add: ascii_faithful_def ascii_lower_def ascii_lower_char_def)
  show ?thesis using a b c d e by blast
qed

theorem title_normalisation_by_side_witness:
  "ascii_faithful ascii_lower
   \<and> \<lparr>ref_journal = Some ''Theory, Culture and Society'',
       ref_journal_lc = Some ''theory, culture and society'', count = 1\<rparr>
      \<in> set (group_count (extract_ref_journals ascii_lower
               [(Some ''Theory, Culture and Society'', Some ''A paper'')]))
   \<and> serial_match
        \<lparr>ref_journal = Some ''Theory, Culture and Society'',
         ref_journal_lc = Some ''theory, culture and society'', count = 1\<rparr>
        (with_serial_lc ascii_lower
           \<lparr>serial_id = Some ''1'', serial = Some ''THEORY, CULTURE AND SOCIETY'',
            serial_issn = None, serial_eissn = None, open_access = None\<rparr>)
       = Some True
   \<and> sql_eq (Some ''theory, culture and society'')
        (Title (normalize_sub ascii_lower
           \<lparr>Title = Some ''Theory, Culture & Society'', ISSN = None, eISSN = None\<rparr>))
       = Some True"
proof -
  have m: "\<lparr>ref_journal = Some ''Theory, Culture and Society'',
       ref_journal_lc = Some ''theory, culture and society'', count = 1\<rparr>
      \<in> set (group_count (extract_ref_journals ascii_lower
               [(Some ''Theory, Culture and Society'', Some ''A paper'')]))"
    by (simp add: eval_defs)
  show ?thesis
    using m ascii_faithful_ascii_lower
      title_normalisation_by_side
        [where L = ascii_lower
           and ps = "[(Some ''Theory, Culture and Society'', Some ''A paper'')]"
           and t = "\<lparr>ref_journal = Some ''Theory, Culture and Society'',
                     ref_journal_lc = Some ''theory, culture and society'', count = 1\<rparr>"
           and sr = "\<lparr>serial_id = Some ''1'', serial = Some ''THEORY, CULTURE AND SOCIETY'',
                      serial_issn = None, serial_eissn = None, open_access = None\<rparr>"
           and u = "\<lparr>Title = Some ''Theory, Culture & Society'', ISSN = None, eISSN = None\<rparr>"
           and j = "''Theory, Culture and Society''" and w = None]
    by (simp add: ascii_lower_def ascii_lower_char_def sql_eq_def)
qed

text \<open>
  C5 as stated fails: the ampersand of a serial title is not replaced. A serial
  titled \<open>Theory, Culture & Society\<close>, cited under that title, keeps the ampersand
  in its lower-cased title and has no partner in a subscription list that holds
  \<open>Theory, Culture and Society\<close>.
\<close>

theorem ampersand_serial_title_unmatched:
  "join_subscriptions
     (join_serials
        (group_count (extract_ref_journals ascii_lower
           [(Some ''Theory, Culture & Society'', Some ''A paper'')]))
        [with_serial_lc ascii_lower
           \<lparr>serial_id = Some ''1'', serial = Some ''Theory, Culture & Society'',
            serial_issn = None, serial_eissn = None, open_access = None\<rparr>])
     (load_ss_df ascii_lower
        [\<lparr>Title = Some ''Theory, Culture and Society'', ISSN = None, eISSN = None\<rparr>])
   = [((\<lparr>ref_journal = Some ''Theory, Culture & Society'',
         ref_journal_lc = Some ''theory, culture & society'', count = 1\<rparr>,
        \<lparr>serial_id = Some ''1'', serial = Some ''Theory, Culture & Society'',
         serial_issn = None, serial_eissn = None, open_access = None,
         serial_lc = Some ''theory, culture & society''\<rparr>),
       null_sub)]
   \<and> load_ss_df ascii_lower
        [\<lparr>Title = Some ''Theory, Culture and Society'', ISSN = None, eISSN = None\<rparr>]
       = [\<lparr>Title = Some ''theory, culture and society'', ISSN = None, eISSN = None\<rparr>]"
  by (simp add: eval_defs)

section \<open>Source titles that lower-case to null\<close>

lemma sort_desc_sorted: "sorted (rev (map f (sort_desc f xs)))"
  by (simp add: sort_desc_def rev_map)

lemma sort_desc_set: "set (sort_desc f xs) = set xs"
  by (simp add: sort_desc_def)

lemma sort_desc_length: "length (sort_desc f xs) = length xs"
  by (simp add: sort_desc_def)

lemma group_count_not_null_titled:
  assumes "t \<in> set (group_count (extract_ref_journals L ps))"
  shows "\<not> null_titled L t"
proof -
  from assms obtain k where "k \<in> set (extract_ref_journals L ps)"
    and "ref_journal t = ref_journal k"
    using group_count_key by blast
  then show ?thesis using extract_not_null_titled [of k L ps] by (simp add: null_titled_def)
qed

lemma extract_null_title_dropped:
  assumes "L s = ''null''"
  shows "extract_ref_journals L [(Some s, t)] = []"
  using assms by (cases t) (simp_all add: extract_missing_work extract_both)

lemma report_title_columns: "report_title (report_columns r) = ref_journal (fst r)"
  by (simp add: report_title_def report_columns_def)

lemma report_rows_stage2:
  "row \<in> set (select_sort (Stage2 rows)) \<Longrightarrow>
     \<exists>x \<in> set rows. report_title row = ref_journal (fst (fst x))"
  by (force simp: sort_desc_set report_title_columns)

text \<open>
  C10, as amended. The extractor tests a source title against the four characters
  \<^verbatim>\<open>null\<close>: no row it yields has a source title that lower-cases to \<^verbatim>\<open>null\<close>, and
  neither has any row of the reference tally, of the serial join or of the
  subscription join of the reference pipeline, nor any row of a not-subscribed
  report taken from that join. A reference with such a source title is discarded as
  the same reference without a source title is: the extractor's result is the same
  for both, and the same as without the reference. The publication pipeline has no
  such test.
\<close>

theorem null_title_never_survives:
  "(\<forall>r \<in> set (extract_ref_journals L ps). \<not> null_titled L r)
   \<and> (\<forall>t \<in> set (group_count (extract_ref_journals L ps)). \<not> null_titled L t)
   \<and> (\<forall>x \<in> set (join_serials (group_count (extract_ref_journals L ps)) serial_df).
         \<not> null_titled L (fst x))
   \<and> (\<forall>x \<in> set (join_subscriptions
                    (join_serials (group_count (extract_ref_journals L ps)) serial_df) ss_df).
         \<not> null_titled L (fst (fst x)))
   \<and> (filter_Title_isNull
         (Stage2 (join_subscriptions
                    (join_serials (group_count (extract_ref_journals L ps)) serial_df) ss_df))
        = Inr f \<longrightarrow>
        (\<forall>row \<in> set (select_sort f). map_option L (report_title row) \<noteq> Some ''null''))
   \<and> (L s = ''null'' \<longrightarrow>
         extract_ref_journals L (xs @ (Some s, t) # ys) = extract_ref_journals L (xs @ (None, t) # ys)
         \<and> extract_ref_journals L (xs @ (Some s, t) # ys) = extract_ref_journals L (xs @ ys))"
proof -
  let ?S2 = "join_subscriptions
               (join_serials (group_count (extract_ref_journals L ps)) serial_df) ss_df"
  have a: "\<forall>r \<in> set (extract_ref_journals L ps). \<not> null_titled L r"
    using extract_not_null_titled by blast
  have b: "\<forall>t \<in> set (group_count (extract_ref_journals L ps)). \<not> null_titled L t"
    using group_count_not_null_titled by blast
  have c: "\<forall>x \<in> set (join_serials (group_count (extract_ref_journals L ps)) serial_df).
         \<not> null_titled L (fst x)"
    using b join_serials_fst by blast
  have d: "\<forall>x \<in> set ?S2. \<not> null_titled L (fst (fst x))"
    using c join_subscriptions_fst by blast
  have e: "filter_Title_isNull (Stage2 ?S2) = Inr f \<longrightarrow>
        (\<forall>row \<in> set (select_sort f). map_option L (report_title row) \<noteq> Some ''null'')"
  proof (intro impI ballI)
    fix row
    assume f: "filter_Title_isNull (Stage2 ?S2) = Inr f" and row: "row \<in> set (select_sort f)"
    from f have "f = Stage2 (df_filter (\<lambda>r. isNull (Title (snd r))) ?S2)" by simp
    with row obtain x where "x \<in> set (df_filter (\<lambda>r. isNull (Title (snd r))) ?S2)"
      and t: "report_title row = ref_journal (fst (fst x))"
      using report_rows_stage2 by blast
    then have "x \<in> set ?S2" by (simp add: df_filter_def)
    then have "\<not> null_titled L (fst (fst x))" using d by blast
    then show "map_option L (report_title row) \<noteq> Some ''null''"
      by (simp add: null_titled_def t)
  qed
  have g: "L s = ''null'' \<longrightarrow>
         extract_ref_journals L (xs @ (Some s, t) # ys) = extract_ref_journals L (xs @ (None, t) # ys)
         \<and> extract_ref_journals L (xs @ (Some s, t) # ys) = extract_ref_journals L (xs @ ys)"
    using dropped_pair [OF extract_null_title_dropped, where xs = xs and ys = ys]
      dropped_pair [OF extract_missing_source, where xs = xs and ys = ys]
    by simp
  show ?thesis using a b c d e g by blast
qed

theorem null_title_never_survives_witness:
  "ascii_lower ''Null'' = ''null''
   \<and> extract_ref_journals ascii_lower
        [(Some ''Null'', Some ''A paper''), (Some ''Nature'', Some ''B'')]
       = [\<lparr>ref_journal = Some ''Nature'', ref_journal_lc = Some ''nature''\<rparr>]
   \<and> join_subscriptions
        (join_serials
           (group_count (extract_ref_journals ascii_lower
              [(Some ''Null'', Some ''A paper''), (Some ''Nature'', Some ''B'')]))
           [with_serial_lc ascii_lower \<lparr>serial_id = Some ''21206'', serial = Some ''Nature'',
              serial_issn = Some ''0028-0836'', serial_eissn = None, open_access = None\<rparr>])
        (load_ss_df ascii_lower [])
       = [((\<lparr>ref_journal = Some ''Nature'', ref_journal_lc = Some ''nature'', count = 1\<rparr>,
            \<lparr>serial_id = Some ''21206'', serial = Some ''Nature'',
              serial_issn = Some ''0028-0836'', serial_eissn = None, open_access = None,
              serial_lc = Some ''nature''\<rparr>),
           null_sub)]
   \<and> select_sort (Stage2 (df_filter (\<lambda>r. isNull (Title (snd r)))
        [((\<lparr>ref_journal = Some ''Nature'', ref_journal_lc = Some ''nature'', count = 1\<rparr>,
            \<lparr>serial_id = Some ''21206'', serial = Some ''Nature'',
              serial_issn = Some ''0028-0836'', serial_eissn = None, open_access = None,
              serial_lc = Some ''nature''\<rparr>),
           null_sub)]))
       = [(Some ''21206'', Some ''Nature'', Some ''0028-0836'', None, None, 1)]
   \<and> \<not> null_titled ascii_lower
         \<lparr>ref_journal = Some ''Nature'', ref_journal_lc = Some ''nature'', count = 1\<rparr>
   \<and> extract_ref_journals ascii_lower
        ([] @ (Some ''Null'', Some ''A paper'') # [(Some ''Nature'', Some ''B'')])
       = extract_ref_journals ascii_lower
           ([] @ (None, Some ''A paper'') # [(Some ''Nature'', Some ''B'')])"
  using null_title_never_survives
    [where L = ascii_lower
       and ps = "[(Some ''Null'', Some ''A paper''), (Some ''Nature'', Some ''B'')]"
       and serial_df = "[with_serial_lc ascii_lower \<lparr>serial_id = Some ''21206'',
              serial = Some ''Nature'',
              serial_issn = Some ''0028-0836'', serial_eissn = None, open_access = None\<rparr>]"
       and ss_df = "load_ss_df ascii_lower []"
       and f = "Stage2 (df_filter (\<lambda>r. isNull (Title (snd r)))
        [((\<lparr>ref_journal = Some ''Nature'', ref_journal_lc = Some ''nature'', count = 1\<rparr>,
            \<lparr>serial_id = Some ''21206'', serial = Some ''Nature'',
              serial_issn = Some ''0028-0836'', serial_eissn = None, open_access = None,
              serial_lc = Some ''nature''\<rparr>),
           null_sub)])"
       and s = "''Null''" and xs = "[]" and t = "Some ''A paper''"
       and ys = "[(Some ''Nature'', Some ''B'')]"]
  by (simp add: eval_defs isNull_def sort_desc_def report_columns_def)

text \<open>
  C10 as stated fails: the title can appear in a tally, a join result and a report
  of the publication pipeline. A reference whose source title is \<open>Null\<close> is
  discarded, but a document published in a journal titled \<open>Null\<close> is counted, and
  the journal is listed in the report of the journals published in and not
  subscribed.
\<close>

theorem null_venue_reported:
  "extract_ref_journals ascii_lower [(Some ''Null'', Some ''A paper'')] = []
   \<and> count_pub_journals ascii_lower [(Some ''123'', Some ''Null'')]
       = [\<lparr>ref_journal = Some ''Null'', ref_journal_lc = Some ''null'', count = 1\<rparr>]
   \<and> published_not_subscribed
        (join_serials (count_pub_journals ascii_lower [(Some ''123'', Some ''Null'')])
           [with_serial_lc ascii_lower \<lparr>serial_id = Some ''123'', serial = Some ''Null'',
              serial_issn = None, serial_eissn = None, open_access = None\<rparr>])
        (load_ss_df ascii_lower [])
       = Inr [(Some ''123'', Some ''Null'', None, None, None, 1)]"
  by (simp add: eval_defs count_pub_journals_def with_journal_lc_def sort_desc_def
      published_not_subscribed_def isNull_def report_columns_def)

section \<open>The saved files\<close>

lemma save_ref_journals_eq:
  "save_ref_journals df fs =
     (if fs ''../data/ref_journals.parquet'' \<noteq> None then (Some AnalysisException, fs)
      else (None, fs(''../data/ref_journals.parquet'' \<mapsto> [df])))"
  by (simp add: save_ref_journals_def df_save_def df_write_def df_format_def)

lemma save_pub_journals_eq:
  "save_pub_journals df fs =
     (if fs ''../data/pub_journals.parquet'' \<noteq> None then (Some AnalysisException, fs)
      else (None, fs(''../data/pub_journals.parquet'' \<mapsto> [df])))"
  by (simp add: save_pub_journals_def df_save_def df_write_def df_format_def)

lemma persist_eq:
  "persist a b fs =
     (if fs ''../data/ref_journals.parquet'' \<noteq> None then (Some AnalysisException, fs)
      else if fs ''../data/pub_journals.parquet'' \<noteq> None
      then (Some AnalysisException, fs(''../data/ref_journals.parquet'' \<mapsto> [a]))
      else (None, fs(''../data/ref_journals.parquet'' \<mapsto> [a],
                     ''../data/pub_journals.parquet'' \<mapsto> [b])))"
  by (simp add: persist_def save_ref_journals_eq save_pub_journals_eq)

lemma persist_done:
  assumes "persist a b fs = (None, fs')"
  shows "fs' ''../data/ref_journals.parquet'' = Some [a]"
    and "fs' ''../data/pub_journals.parquet'' = Some [b]"
  using assms by (auto simp: persist_eq split: if_splits)

text \<open>
  C7, as amended. Each of the two cells writes the frame of its variable to its fixed
  path with the default save mode. When the path is free the frame is written there;
  when a file is there already the cell raises and leaves the file system as it was:
  nothing is overwritten and nothing is appended. A run that fails at its second
  write leaves the file of its first write on disk. After a run that succeeded both
  paths hold what that run wrote, and every further run fails at its first write and
  changes nothing.
\<close>

theorem save_refuses_existing_path:
  "save_ref_journals df fs =
     (if fs ''../data/ref_journals.parquet'' \<noteq> None then (Some AnalysisException, fs)
      else (None, fs(''../data/ref_journals.parquet'' \<mapsto> [df])))
   \<and> save_pub_journals df fs =
     (if fs ''../data/pub_journals.parquet'' \<noteq> None then (Some AnalysisException, fs)
      else (None, fs(''../data/pub_journals.parquet'' \<mapsto> [df])))
   \<and> (fs ''../data/ref_journals.parquet'' = None \<and> fs ''../data/pub_journals.parquet'' = None \<longrightarrow>
        persist a b fs
          = (None, fs(''../data/ref_journals.parquet'' \<mapsto> [a],
                      ''../data/pub_journals.parquet'' \<mapsto> [b])))
   \<and> (fs ''../data/ref_journals.parquet'' = None \<and> fs ''../data/pub_journals.parquet'' \<noteq> None \<longrightarrow>
        persist a b fs
          = (Some AnalysisException, fs(''../data/ref_journals.parquet'' \<mapsto> [a])))
   \<and> (fs ''../data/ref_journals.parquet'' \<noteq> None \<longrightarrow>
        persist a b fs = (Some AnalysisException, fs))
   \<and> (persist a b fs = (None, fs') \<longrightarrow>
        fs' ''../data/ref_journals.parquet'' = Some [a]
        \<and> fs' ''../data/pub_journals.parquet'' = Some [b]
        \<and> save_ref_journals a' fs' = (Some AnalysisException, fs')
        \<and> save_pub_journals b' fs' = (Some AnalysisException, fs')
        \<and> persist a' b' fs' = (Some AnalysisException, fs')
        \<and> run_twice a b fs = (Some AnalysisException, fs'))"
proof -
  have "persist a b fs = (None, fs') \<longrightarrow>
        fs' ''../data/ref_journals.parquet'' = Some [a]
        \<and> fs' ''../data/pub_journals.parquet'' = Some [b]
        \<and> save_ref_journals a' fs' = (Some AnalysisException, fs')
        \<and> save_pub_journals b' fs' = (Some AnalysisException, fs')
        \<and> persist a' b' fs' = (Some AnalysisException, fs')
        \<and> run_twice a b fs = (Some AnalysisException, fs')"
  proof
    assume p: "persist a b fs = (None, fs')"
    note d = persist_done [OF p]
    have "persist a b fs' = (Some AnalysisException, fs')"
      by (simp add: persist_eq d)
    then have "run_twice a b fs = (Some AnalysisException, fs')"
      by (simp add: run_twice_def p)
    then show "fs' ''../data/ref_journals.parquet'' = Some [a]
        \<and> fs' ''../data/pub_journals.parquet'' = Some [b]
        \<and> save_ref_journals a' fs' = (Some AnalysisException, fs')
        \<and> save_pub_journals b' fs' = (Some AnalysisException, fs')
        \<and> persist a' b' fs' = (Some AnalysisException, fs')
        \<and> run_twice a b fs = (Some AnalysisException, fs')"
      by (simp add: d persist_eq save_ref_journals_eq save_pub_journals_eq)
  qed
  then show ?thesis
    by (simp add: persist_eq save_ref_journals_eq save_pub_journals_eq)
qed

theorem save_refuses_existing_path_witness:
  "(Map.empty :: files) ''../data/ref_journals.parquet'' = None
   \<and> (Map.empty :: files) ''../data/pub_journals.parquet'' = None
   \<and> persist (Stage1 []) (Stage2 []) Map.empty
       = (None, [''../data/ref_journals.parquet'' \<mapsto> [Stage1 []],
                 ''../data/pub_journals.parquet'' \<mapsto> [Stage2 []]])
   \<and> persist (Stage1 []) (Stage2 [])
        [''../data/ref_journals.parquet'' \<mapsto> [Stage1 []],
         ''../data/pub_journals.parquet'' \<mapsto> [Stage2 []]]
       = (Some AnalysisException,
          [''../data/ref_journals.parquet'' \<mapsto> [Stage1 []],
           ''../data/pub_journals.parquet'' \<mapsto> [Stage2 []]])
   \<and> [''../data/pub_journals.parquet'' \<mapsto> [Stage2 []]] ''../data/ref_journals.parquet'' = None
   \<and> [''../data/pub_journals.parquet'' \<mapsto> [Stage2 []]] ''../data/pub_journals.parquet'' \<noteq> None
   \<and> persist (Stage1 []) (Stage2 []) [''../data/pub_journals.parquet'' \<mapsto> [Stage2 []]]
       = (Some AnalysisException,
          [''../data/pub_journals.parquet'' \<mapsto> [Stage2 []],
           ''../data/ref_journals.parquet'' \<mapsto> [Stage1 []]])"
proof -
  let ?p1 = "''../data/ref_journals.parquet''" and ?p2 = "''../data/pub_journals.parquet''"
  let ?F = "[?p1 \<mapsto> [Stage1 []], ?p2 \<mapsto> [Stage2 []]]"
  let ?G = "[?p2 \<mapsto> [Stage2 []]] :: files"
  have h1: "(Map.empty :: files) ?p1 = None \<and> (Map.empty :: files) ?p2 = None"
    by simp
  have h2: "?G ?p1 = None \<and> ?G ?p2 \<noteq> None"
    by simp
  note T1 = save_refuses_existing_path
      [where fs = Map.empty and a = "Stage1 []" and b = "Stage2 []" and a' = "Stage1 []"
         and b' = "Stage2 []" and fs' = ?F]
  note T2 = save_refuses_existing_path
      [where fs = ?G and a = "Stage1 []" and b = "Stage2 []"]
  have c1: "persist (Stage1 []) (Stage2 []) Map.empty = (None, ?F)"
    using T1 h1 by blast
  have c2: "persist (Stage1 []) (Stage2 []) ?F = (Some AnalysisException, ?F)"
    using T1 c1 by blast
  have c3: "persist (Stage1 []) (Stage2 []) ?G = (Some AnalysisException, ?G(?p1 \<mapsto> [Stage1 []]))"
    using T2 h2 by blast
  show ?thesis
    using h1 h2 c1 c2 c3 by blast
qed

text \<open>
  C7 as stated fails: the second of two runs from an empty directory does not
  succeed, it raises because the first run left a file at the path; the files are
  those of the first run.
\<close>

theorem second_run_fails:
  "fst (persist (Stage1 []) (Stage2 []) Map.empty) = None
   \<and> fst (run_twice (Stage1 []) (Stage2 []) Map.empty) = Some AnalysisException
   \<and> snd (run_twice (Stage1 []) (Stage2 []) Map.empty)
       = snd (persist (Stage1 []) (Stage2 []) Map.empty)"
  by (simp add: run_twice_def persist_eq)

section \<open>The reports\<close>

lemma serial_join_inner:
  "(t, s) \<in> set (join_serials tally serial_df) \<longleftrightarrow>
     t \<in> set tally \<and> s \<in> set serial_df
     \<and> (\<exists>v. ref_journal_lc t = Some v \<and> serial_lc s = Some v)"
  by (simp add: join_serials_def in_inner_join serial_match_def sql_eq_True)

lemma sub_match_null_sub: "sub_match r null_sub \<noteq> Some True"
  by (auto simp: sub_match_True null_sub_def present_iff)

lemma subscription_join_left_outer:
  "fst ` set (join_subscriptions rows ss_df) = set rows"
proof
  show "fst ` set (join_subscriptions rows ss_df) \<subseteq> set rows"
    using join_subscriptions_fst by blast
  show "set rows \<subseteq> fst ` set (join_subscriptions rows ss_df)"
  proof
    fix r assume r: "r \<in> set rows"
    show "r \<in> fst ` set (join_subscriptions rows ss_df)"
    proof (cases "\<forall>z \<in> set ss_df. sub_match r z \<noteq> Some True")
      case True
      then have "(r, null_sub) \<in> set (join_subscriptions rows ss_df)"
        using r by (simp add: join_subscriptions_def in_left_outer_join)
      then show ?thesis by force
    next
      case False
      then obtain z where "z \<in> set ss_df" and "sub_match r z = Some True" by blast
      then have "(r, z) \<in> set (join_subscriptions rows ss_df)"
        using r by (simp add: join_subscriptions_def in_left_outer_join)
      then show ?thesis by force
    qed
  qed
qed

lemma subscription_side_null:
  "(r, u) \<in> set (join_subscriptions rows ss_df) \<Longrightarrow>
     u = null_sub \<longleftrightarrow> (\<forall>z \<in> set ss_df. sub_match r z \<noteq> Some True)"
  using sub_match_null_sub [of r]
  by (auto simp: join_subscriptions_def in_left_outer_join)

text \<open>
  C2. The serial join is inner and the subscription join is left-outer, as the three
  lemmas above state. The report of the publication variant is taken from the result
  of the subscription join: its rows without subscription, projected and sorted by
  count. The report of the reference variant is not: cell 31 looks for the column
  \<^verbatim>\<open>Title\<close> in \<^verbatim>\<open>ref_journal_df\<close>, which is still the stage-1 frame, and raises.
\<close>

theorem cited_not_subscribed_raises:
  "cited_not_subscribed rows ss_df = Inl AttributeError
   \<and> published_not_subscribed rows ss_df
       = Inr (sort_desc report_count
                (map (\<lambda>r. report_columns (fst r))
                   (filter (\<lambda>r. Title (snd r) = None) (join_subscriptions rows ss_df))))"
  by (simp add: cited_not_subscribed_def published_not_subscribed_def df_filter_def isNull_def)

end
